theory Spec2Isabelle
  imports Complex_Main
begin

section \<open>Vectors and matrices of the host (mathutils)\<close>

text \<open>
  The scripts compute on \<open>mathutils.Vector\<close> values. Coordinates are modelled as
  real numbers: the rounding of the host's floating-point arithmetic is not part of
  this development.
\<close>

datatype vector = Vector (vx: real) (vy: real) (vz: real)

fun vadd :: "vector \<Rightarrow> vector \<Rightarrow> vector" where
  "vadd (Vector a b c) (Vector d e f) = Vector (a + d) (b + e) (c + f)"

fun vsub :: "vector \<Rightarrow> vector \<Rightarrow> vector" where
  "vsub (Vector a b c) (Vector d e f) = Vector (a - d) (b - e) (c - f)"

fun smul :: "vector \<Rightarrow> real \<Rightarrow> vector" where
  "smul (Vector a b c) t = Vector (a * t) (b * t) (c * t)"

fun dot :: "vector \<Rightarrow> vector \<Rightarrow> real" where
  "dot (Vector a b c) (Vector d e f) = a * d + b * e + c * f"

definition length_squared :: "vector \<Rightarrow> real" where
  "length_squared v = dot v v"

definition vlength :: "vector \<Rightarrow> real" where
  "vlength v = sqrt (length_squared v)"

type_synonym row4 = "real \<times> real \<times> real \<times> real"

datatype matrix = Matrix row4 row4 row4 row4

fun row_apply :: "row4 \<Rightarrow> vector \<Rightarrow> real" where
  "row_apply (a, b, c, d) (Vector x y z) = a * x + b * y + c * z + d"

text \<open>
  \<open>M @ v\<close> for a 4x4 matrix and a 3D vector: the vector is extended by \<open>w = 1\<close> and
  the first three rows give the result.
\<close>

fun matmul :: "matrix \<Rightarrow> vector \<Rightarrow> vector" where
  "matmul (Matrix r0 r1 r2 r3) v = Vector (row_apply r0 v) (row_apply r1 v) (row_apply r2 v)"

definition identity_matrix :: matrix where
  "identity_matrix = Matrix (1, 0, 0, 0) (0, 1, 0, 0) (0, 0, 1, 0) (0, 0, 0, 1)"

section \<open>The host's data model, as far as the scripts read and write it\<close>

datatype error = KeyError | ValueError | ZeroDivisionError | AttributeError

record bone =
  name :: string
  head_local :: vector
  tail_local :: vector

record armature =
  bones :: "bone list"

text \<open>A mesh vertex; its \<open>index\<close> is its position in the mesh's vertex list.\<close>

record mesh_vertex =
  co :: vector
  normal :: vector

text \<open>A polygon: its face normal (\<open>poly.normal\<close>) and the indices of its corners.\<close>

record polygon =
  poly_normal :: vector
  loop_indices :: "nat list"

type_synonym color = "real \<times> real \<times> real \<times> real"

text \<open>
  A corner color layer maps a loop index to the color written there; a corner that was
  never written reads \<open>None\<close> (the host's default value).
\<close>

type_synonym color_layer = "nat \<rightharpoonup> color"

record mesh =
  vertices :: "mesh_vertex list"
  polygons :: "polygon list"
  color_attributes :: "color_layer list"

text \<open>A vertex group: its name and the weights of the vertices it holds.\<close>

type_synonym vertex_group = "string \<times> (nat \<rightharpoonup> real)"

record 'd object =
  matrix_world :: matrix
  location :: vector
  data :: 'd
  vertex_groups :: "vertex_group list"

section \<open>Bone-proximity skin binder (rig_and_export.py, generate_animations.py)\<close>

subsection \<open>closest_point_on_segment\<close>

definition closest_point_on_segment :: "vector \<Rightarrow> vector \<Rightarrow> vector \<Rightarrow> vector" where
  "closest_point_on_segment p a b =
     (let ab = vsub b a;
          length_sq = length_squared ab
      in if length_sq < 1 / 10 ^ 8 then a
         else (let t = max 0 (min 1 (dot (vsub p a) ab / length_sq))
               in vadd a (smul ab t)))"



subsection \<open>assign_weights_by_bones\<close>

text \<open>
  The function is written twice, in rig_and_export.py and in generate_animations.py,
  with the same body; one definition stands for both.
\<close>

type_synonym bone_entry = "string \<times> vector \<times> vector"

definition collect_bone_data :: "armature object \<Rightarrow> bone_entry list" where
  "collect_bone_data arm_obj =
     map (\<lambda>b. (name b,
               matmul (matrix_world arm_obj) (head_local b),
               matmul (matrix_world arm_obj) (tail_local b)))
         (filter (\<lambda>b. name b \<noteq> ''Root'') (bones (data arm_obj)))"

text \<open>\<open>vertex_groups.clear()\<close> and \<open>vertex_groups.new(name=...)\<close>. The host renames a
  new group whose name is taken; bone names of one armature are distinct, so that
  renaming never happens here.\<close>

definition vertex_groups_clear :: "vertex_group list \<Rightarrow> vertex_group list" where
  "vertex_groups_clear gs = []"

definition vertex_groups_new :: "vertex_group list \<Rightarrow> string \<Rightarrow> vertex_group list" where
  "vertex_groups_new gs n = gs @ [(n, Map.empty)]"

text \<open>\<open>dist < best_dist\<close>, where \<open>best_dist\<close> starts at \<open>float('inf')\<close>, the value
  \<open>None\<close> here.\<close>

definition dist_less :: "real \<Rightarrow> real option \<Rightarrow> bool" where
  "dist_less d best_dist = (case best_dist of None \<Rightarrow> True | Some b \<Rightarrow> d < b)"

fun nearest_bone ::
  "vector \<Rightarrow> bone_entry list \<Rightarrow> string option \<Rightarrow> real option \<Rightarrow> string option" where
  "nearest_bone p [] best_bone best_dist = best_bone"
| "nearest_bone p ((bone_name, head, tail) # rest) best_bone best_dist =
     (let pt = closest_point_on_segment p head tail;
          d = vlength (vsub p pt)
      in if dist_less d best_dist
         then nearest_bone p rest (Some bone_name) (Some d)
         else nearest_bone p rest best_bone best_dist)"

text \<open>\<open>mesh_obj.vertex_groups[best_bone].add([v.index], w, 'REPLACE')\<close>: the first group of
  that name; a missing name raises KeyError.\<close>

fun vg_add :: "vertex_group list \<Rightarrow> string \<Rightarrow> nat \<Rightarrow> real \<Rightarrow> error + vertex_group list" where
  "vg_add [] n i w = Inl KeyError"
| "vg_add ((m, ws) # gs) n i w =
     (if m = n then Inr ((m, ws(i \<mapsto> w)) # gs)
      else (case vg_add gs n i w of
              Inl e \<Rightarrow> Inl e
            | Inr gs' \<Rightarrow> Inr ((m, ws) # gs')))"

text \<open>The loop over the vertices. \<open>if best_bone:\<close> is Python's truth test: \<open>None\<close> and
  the empty string both skip the vertex.\<close>

fun assign_vertices ::
  "matrix \<Rightarrow> bone_entry list \<Rightarrow> (nat \<times> mesh_vertex) list \<Rightarrow> vertex_group list
     \<Rightarrow> error + vertex_group list" where
  "assign_vertices M bone_data [] gs = Inr gs"
| "assign_vertices M bone_data ((i, v) # vs) gs =
     (case nearest_bone (matmul M (co v)) bone_data None None of
        None \<Rightarrow> assign_vertices M bone_data vs gs
      | Some best_bone \<Rightarrow>
          if best_bone = [] then assign_vertices M bone_data vs gs
          else (case vg_add gs best_bone i 1 of
                  Inl e \<Rightarrow> Inl e
                | Inr gs' \<Rightarrow> assign_vertices M bone_data vs gs'))"

definition assign_weights_by_bones ::
  "mesh object \<Rightarrow> armature object \<Rightarrow> error + mesh object" where
  "assign_weights_by_bones mesh_obj arm_obj =
     (let bone_data = collect_bone_data arm_obj;
          cleared = vertex_groups_clear (vertex_groups mesh_obj);
          created = foldl (\<lambda>gs (bone_name, _, _). vertex_groups_new gs bone_name)
                      cleared bone_data
      in case assign_vertices (matrix_world mesh_obj) bone_data
                (enumerate 0 (vertices (data mesh_obj))) created of
           Inl e \<Rightarrow> Inl e
         | Inr gs \<Rightarrow> Inr (mesh_obj\<lparr>vertex_groups := gs\<rparr>))"

text \<open>The distance the loop compares: from the vertex to the point that
  \<open>closest_point_on_segment\<close> returns for the bone.\<close>

fun bone_distance :: "vector \<Rightarrow> bone_entry \<Rightarrow> real" where
  "bone_distance p (bone_name, head, tail) =
     vlength (vsub p (closest_point_on_segment p head tail))"

text \<open>The bone the loop binds a vertex to, after the truth test.\<close>

definition chosen_bone :: "matrix \<Rightarrow> bone_entry list \<Rightarrow> mesh_vertex \<Rightarrow> string option" where
  "chosen_bone M bone_data v =
     (case nearest_bone (matmul M (co v)) bone_data None None of
        None \<Rightarrow> None
      | Some best_bone \<Rightarrow> if best_bone = [] then None else Some best_bone)"

subsection \<open>Scenarios\<close>

text \<open>The two-bone skeleton of the specification, with one vertex at (0.1, 0, 0.5);
  the mesh carries a stale vertex group from an earlier binding.\<close>

definition scenario_arm :: "armature object" where
  "scenario_arm =
     \<lparr>matrix_world = identity_matrix, location = Vector 0 0 0,
      data = \<lparr>bones =
        [\<lparr>name = ''BoneA'', head_local = Vector 0 0 0, tail_local = Vector 0 0 1\<rparr>,
         \<lparr>name = ''BoneB'', head_local = Vector 0 0 1, tail_local = Vector 0 0 2\<rparr>]\<rparr>,
      vertex_groups = []\<rparr>"

definition scenario_mesh :: "mesh object" where
  "scenario_mesh =
     \<lparr>matrix_world = identity_matrix, location = Vector 0 0 0,
      data = \<lparr>vertices = [\<lparr>co = Vector (1 / 10) 0 (1 / 2), normal = Vector 1 0 0\<rparr>],
              polygons = [], color_attributes = []\<rparr>,
      vertex_groups = [(''Stale'', [0 \<mapsto> 1 / 2])]\<rparr>"



section \<open>Skeletal pose and animation synthesizer (generate_animations.py)\<close>

text \<open>
  The armature object as the animation functions use it: its pose bones by name, the
  actions of \<open>bpy.data.actions\<close> (an action's identity is its position in that list),
  the active action \<open>animation_data.action\<close> and the NLA tracks, each with the action
  of its strip. \<open>animation_data\<close> itself is created on demand and is not modelled
  apart.
\<close>

datatype data_path = Rotation_euler | Location

text \<open>A keyframe: bone name, channel and frame number, with the value keyed there.\<close>

type_synonym keyframes = "string \<times> data_path \<times> int \<Rightarrow> vector option"

record pose_bone =
  rotation_euler :: vector
  pose_location :: vector

record anim_action =
  action_name :: string
  fcurves :: keyframes

record rig =
  pose_bones :: "string \<rightharpoonup> pose_bone"
  actions :: "anim_action list"
  action :: "nat option"
  nla_tracks :: "(string \<times> nat) list"

definition rad :: "real \<Rightarrow> real" where
  "rad degrees = degrees * pi / 180"

text \<open>\<open>pose_bone.keyframe_insert(data_path, frame)\<close> keys the bone's current value on
  the active action; without an active action the host creates one.\<close>

definition keyframe_insert :: "rig \<Rightarrow> string \<Rightarrow> data_path \<Rightarrow> vector \<Rightarrow> int \<Rightarrow> rig" where
  "keyframe_insert arm_obj bone_name path v frame =
     (case action arm_obj of
        None \<Rightarrow>
          arm_obj\<lparr>actions := actions arm_obj @
                      [\<lparr>action_name = ''Action'',
                        fcurves = Map.empty((bone_name, path, frame) \<mapsto> v)\<rparr>],
                  action := Some (length (actions arm_obj))\<rparr>
      | Some a \<Rightarrow>
          arm_obj\<lparr>actions := (actions arm_obj)
                      [a := (actions arm_obj ! a)
                         \<lparr>fcurves := (fcurves (actions arm_obj ! a))
                                       ((bone_name, path, frame) \<mapsto> v)\<rparr>]\<rparr>)"

definition set_bone_rotation :: "rig \<Rightarrow> string \<Rightarrow> real \<Rightarrow> real \<Rightarrow> real \<Rightarrow> int \<Rightarrow> rig" where
  "set_bone_rotation arm_obj bone_name rx_deg ry_deg rz_deg frame =
     (case pose_bones arm_obj bone_name of
        None \<Rightarrow> arm_obj
      | Some pb \<Rightarrow>
          (let e = Vector (rad rx_deg) (rad ry_deg) (rad rz_deg);
               posed = arm_obj\<lparr>pose_bones :=
                         (pose_bones arm_obj)(bone_name \<mapsto> pb\<lparr>rotation_euler := e\<rparr>)\<rparr>
           in keyframe_insert posed bone_name Rotation_euler e frame))"

definition set_bone_location :: "rig \<Rightarrow> string \<Rightarrow> real \<Rightarrow> real \<Rightarrow> real \<Rightarrow> int \<Rightarrow> rig" where
  "set_bone_location arm_obj bone_name x y z frame =
     (case pose_bones arm_obj bone_name of
        None \<Rightarrow> arm_obj
      | Some pb \<Rightarrow>
          (let l = Vector x y z;
               posed = arm_obj\<lparr>pose_bones :=
                         (pose_bones arm_obj)(bone_name \<mapsto> pb\<lparr>pose_location := l\<rparr>)\<rparr>
           in keyframe_insert posed bone_name Location l frame))"

text \<open>\<open>create_action\<close> returns the new action, here its position in \<open>actions\<close>.\<close>

definition create_action :: "rig \<Rightarrow> string \<Rightarrow> rig \<times> nat" where
  "create_action arm_obj n =
     (arm_obj\<lparr>actions := actions arm_obj @ [\<lparr>action_name = n, fcurves = Map.empty\<rparr>],
              action := Some (length (actions arm_obj))\<rparr>,
      length (actions arm_obj))"

definition push_to_nla :: "rig \<Rightarrow> nat \<Rightarrow> string \<Rightarrow> rig" where
  "push_to_nla arm_obj act n =
     arm_obj\<lparr>nla_tracks := nla_tracks arm_obj @ [(n, act)], action := None\<rparr>"

definition reset_pose :: "rig \<Rightarrow> rig" where
  "reset_pose arm_obj =
     arm_obj\<lparr>pose_bones := (\<lambda>n. map_option
        (\<lambda>pb. pb\<lparr>rotation_euler := Vector 0 0 0, pose_location := Vector 0 0 0\<rparr>)
        (pose_bones arm_obj n))\<rparr>"

text \<open>
  The clip functions are straight-line sequences of \<open>set_bone_rotation\<close> and
  \<open>set_bone_location\<close> calls; each sequence is written as the list of its calls, in
  the order of the source, and run from left to right.
\<close>

datatype keyframe_call =
    Rot string real real real int
  | Loc string real real real int

fun run_call :: "rig \<Rightarrow> keyframe_call \<Rightarrow> rig" where
  "run_call arm_obj (Rot bone_name rx_deg ry_deg rz_deg frame) =
     set_bone_rotation arm_obj bone_name rx_deg ry_deg rz_deg frame"
| "run_call arm_obj (Loc bone_name x y z frame) =
     set_bone_location arm_obj bone_name x y z frame"

definition run_calls :: "rig \<Rightarrow> keyframe_call list \<Rightarrow> rig" where
  "run_calls arm_obj cs = foldl run_call arm_obj cs"

definition idle_rest :: "int \<Rightarrow> keyframe_call list" where
  "idle_rest frame =
     [Rot ''Spine'' 0 0 0 frame,
      Rot ''Chest'' 0 0 0 frame,
      Rot ''Head'' 0 0 0 frame,
      Rot ''UpperArm_L'' 0 0 0 frame,
      Rot ''UpperArm_R'' 0 0 0 frame]"

definition idle_peak :: "keyframe_call list" where
  "idle_peak =
     [Rot ''Spine'' 2 0 0 30,
      Rot ''Chest'' (- 1.5) 0 0 30,
      Rot ''Head'' (- 1) 0 0 30,
      Rot ''UpperArm_L'' 0 0 1 30,
      Rot ''UpperArm_R'' 0 0 (- 1) 30]"

definition walk_left_contact :: "int \<Rightarrow> keyframe_call list" where
  "walk_left_contact f =
     [Rot ''UpperLeg_L'' (- 25) 0 0 f,
      Rot ''LowerLeg_L'' 5 0 0 f,
      Rot ''Foot_L'' 10 0 0 f,
      Rot ''UpperLeg_R'' 20 0 0 f,
      Rot ''LowerLeg_R'' 35 0 0 f,
      Rot ''Foot_R'' (- 5) 0 0 f,
      Rot ''UpperArm_L'' 15 0 0 f,
      Rot ''LowerArm_L'' (- 10) 0 0 f,
      Rot ''UpperArm_R'' (- 15) 0 0 f,
      Rot ''LowerArm_R'' (- 15) 0 0 f,
      Rot ''Spine'' 2 3 0 f,
      Rot ''Chest'' 0 (- 3) 0 f,
      Loc ''Hips'' 0 0 (- 0.02) f]"

definition walk_left_passing :: "keyframe_call list" where
  "walk_left_passing =
     [Rot ''UpperLeg_L'' 0 0 0 8,
      Rot ''LowerLeg_L'' 30 0 0 8,
      Rot ''Foot_L'' (- 15) 0 0 8,
      Rot ''UpperLeg_R'' 0 0 0 8,
      Rot ''LowerLeg_R'' 5 0 0 8,
      Rot ''Foot_R'' 0 0 0 8,
      Rot ''UpperArm_L'' 0 0 0 8,
      Rot ''LowerArm_L'' (- 5) 0 0 8,
      Rot ''UpperArm_R'' 0 0 0 8,
      Rot ''LowerArm_R'' (- 5) 0 0 8,
      Rot ''Spine'' 2 0 0 8,
      Rot ''Chest'' 0 0 0 8,
      Loc ''Hips'' 0 0 0.01 8]"

definition walk_right_contact :: "keyframe_call list" where
  "walk_right_contact =
     [Rot ''UpperLeg_L'' 20 0 0 15,
      Rot ''LowerLeg_L'' 35 0 0 15,
      Rot ''Foot_L'' (- 5) 0 0 15,
      Rot ''UpperLeg_R'' (- 25) 0 0 15,
      Rot ''LowerLeg_R'' 5 0 0 15,
      Rot ''Foot_R'' 10 0 0 15,
      Rot ''UpperArm_L'' (- 15) 0 0 15,
      Rot ''LowerArm_L'' (- 15) 0 0 15,
      Rot ''UpperArm_R'' 15 0 0 15,
      Rot ''LowerArm_R'' (- 10) 0 0 15,
      Rot ''Spine'' 2 (- 3) 0 15,
      Rot ''Chest'' 0 3 0 15,
      Loc ''Hips'' 0 0 (- 0.02) 15]"

definition walk_right_passing :: "keyframe_call list" where
  "walk_right_passing =
     [Rot ''UpperLeg_L'' 0 0 0 23,
      Rot ''LowerLeg_L'' 5 0 0 23,
      Rot ''Foot_L'' 0 0 0 23,
      Rot ''UpperLeg_R'' 0 0 0 23,
      Rot ''LowerLeg_R'' 30 0 0 23,
      Rot ''Foot_R'' (- 15) 0 0 23,
      Rot ''UpperArm_L'' 0 0 0 23,
      Rot ''LowerArm_L'' (- 5) 0 0 23,
      Rot ''UpperArm_R'' 0 0 0 23,
      Rot ''LowerArm_R'' (- 5) 0 0 23,
      Rot ''Spine'' 2 0 0 23,
      Rot ''Chest'' 0 0 0 23,
      Loc ''Hips'' 0 0 0.01 23]"

definition run_left_contact :: "int \<Rightarrow> keyframe_call list" where
  "run_left_contact f =
     [Rot ''UpperLeg_L'' (- 40) 0 0 f,
      Rot ''LowerLeg_L'' 10 0 0 f,
      Rot ''Foot_L'' 15 0 0 f,
      Rot ''UpperLeg_R'' 30 0 0 f,
      Rot ''LowerLeg_R'' 50 0 0 f,
      Rot ''Foot_R'' (- 10) 0 0 f,
      Rot ''UpperArm_L'' 25 0 0 f,
      Rot ''LowerArm_L'' (- 20) 0 0 f,
      Rot ''UpperArm_R'' (- 30) 0 0 f,
      Rot ''LowerArm_R'' (- 25) 0 0 f,
      Rot ''Spine'' 5 5 0 f,
      Rot ''Chest'' (- 3) (- 5) 0 f,
      Loc ''Hips'' 0 0 (- 0.03) f]"

definition run_left_passing :: "keyframe_call list" where
  "run_left_passing =
     [Rot ''UpperLeg_L'' 5 0 0 5,
      Rot ''LowerLeg_L'' 45 0 0 5,
      Rot ''Foot_L'' (- 20) 0 0 5,
      Rot ''UpperLeg_R'' (- 5) 0 0 5,
      Rot ''LowerLeg_R'' 10 0 0 5,
      Rot ''Foot_R'' 0 0 0 5,
      Rot ''UpperArm_L'' 0 0 0 5,
      Rot ''LowerArm_L'' (- 10) 0 0 5,
      Rot ''UpperArm_R'' 0 0 0 5,
      Rot ''LowerArm_R'' (- 10) 0 0 5,
      Rot ''Spine'' 5 0 0 5,
      Rot ''Chest'' (- 3) 0 0 5,
      Loc ''Hips'' 0 0 0.02 5]"

definition run_right_contact :: "keyframe_call list" where
  "run_right_contact =
     [Rot ''UpperLeg_L'' 30 0 0 10,
      Rot ''LowerLeg_L'' 50 0 0 10,
      Rot ''Foot_L'' (- 10) 0 0 10,
      Rot ''UpperLeg_R'' (- 40) 0 0 10,
      Rot ''LowerLeg_R'' 10 0 0 10,
      Rot ''Foot_R'' 15 0 0 10,
      Rot ''UpperArm_L'' (- 30) 0 0 10,
      Rot ''LowerArm_L'' (- 25) 0 0 10,
      Rot ''UpperArm_R'' 25 0 0 10,
      Rot ''LowerArm_R'' (- 20) 0 0 10,
      Rot ''Spine'' 5 (- 5) 0 10,
      Rot ''Chest'' (- 3) 5 0 10,
      Loc ''Hips'' 0 0 (- 0.03) 10]"

definition run_right_passing :: "keyframe_call list" where
  "run_right_passing =
     [Rot ''UpperLeg_L'' (- 5) 0 0 15,
      Rot ''LowerLeg_L'' 10 0 0 15,
      Rot ''Foot_L'' 0 0 0 15,
      Rot ''UpperLeg_R'' 5 0 0 15,
      Rot ''LowerLeg_R'' 45 0 0 15,
      Rot ''Foot_R'' (- 20) 0 0 15,
      Rot ''UpperArm_L'' 0 0 0 15,
      Rot ''LowerArm_L'' (- 10) 0 0 15,
      Rot ''UpperArm_R'' 0 0 0 15,
      Rot ''LowerArm_R'' (- 10) 0 0 15,
      Rot ''Spine'' 5 0 0 15,
      Rot ''Chest'' (- 3) 0 0 15,
      Loc ''Hips'' 0 0 0.02 15]"

definition create_idle :: "rig \<Rightarrow> rig" where
  "create_idle arm_obj =
     (let (arm, act) = create_action arm_obj ''Idle'';
          arm = reset_pose arm;
          arm = run_calls arm (concat (map idle_rest [1, 60]));
          arm = run_calls arm idle_peak
      in push_to_nla arm act ''Idle'')"

definition create_walk :: "rig \<Rightarrow> rig" where
  "create_walk arm_obj =
     (let (arm, act) = create_action arm_obj ''Walk'';
          arm = reset_pose arm;
          arm = run_calls arm (concat (map walk_left_contact [1, 30]));
          arm = run_calls arm walk_left_passing;
          arm = run_calls arm walk_right_contact;
          arm = run_calls arm walk_right_passing
      in push_to_nla arm act ''Walk'')"

definition create_run :: "rig \<Rightarrow> rig" where
  "create_run arm_obj =
     (let (arm, act) = create_action arm_obj ''Run'';
          arm = reset_pose arm;
          arm = run_calls arm (concat (map run_left_contact [1, 20]));
          arm = run_calls arm run_left_passing;
          arm = run_calls arm run_right_contact;
          arm = run_calls arm run_right_passing
      in push_to_nla arm act ''Run'')"

text \<open>The keyframes of the clip that a clip function has just pushed: those of the
  action of the last NLA track.\<close>

definition pushed_clip :: "rig \<Rightarrow> keyframes" where
  "pushed_clip arm_obj =
     (case rev (nla_tracks arm_obj) of
        [] \<Rightarrow> Map.empty
      | (n, act) # _ \<Rightarrow> fcurves (actions arm_obj ! act))"

text \<open>
  The mirror transformation of the specification: a name ending in \<open>_L\<close> is swapped
  with the name ending in \<open>_R\<close>; a rotation of a centre-line bone (Spine, Chest) keeps
  its first Euler component and changes the sign of the two lateral ones; every other
  value is kept.
\<close>

definition mirror_bone :: "string \<Rightarrow> string" where
  "mirror_bone b =
     (let r = rev b
      in if take 2 r = ''L_'' then rev (drop 2 r) @ ''_R''
         else if take 2 r = ''R_'' then rev (drop 2 r) @ ''_L''
         else b)"

fun mirror_value :: "string \<Rightarrow> data_path \<Rightarrow> vector \<Rightarrow> vector" where
  "mirror_value b Rotation_euler (Vector rx ry rz) =
     (if b = ''Spine'' \<or> b = ''Chest'' then Vector rx (- ry) (- rz) else Vector rx ry rz)"
| "mirror_value b Location v = v"

text \<open>The pose bones of the humanoid of rig_and_export.py, at rest.\<close>

text \<open>The bones that Walk and Run key.\<close>

definition gait_bone_names :: "string list" where
  "gait_bone_names =
     [''UpperLeg_L'', ''LowerLeg_L'', ''Foot_L'', ''UpperLeg_R'', ''LowerLeg_R'', ''Foot_R'',
      ''UpperArm_L'', ''LowerArm_L'', ''UpperArm_R'', ''LowerArm_R'',
      ''Spine'', ''Chest'', ''Hips'']"

definition humanoid_bone_names :: "string list" where
  "humanoid_bone_names =
     [''Root'', ''Hips'', ''Spine'', ''Chest'', ''Neck'', ''Head'',
      ''Shoulder_L'', ''UpperArm_L'', ''LowerArm_L'', ''Hand_L'',
      ''Shoulder_R'', ''UpperArm_R'', ''LowerArm_R'', ''Hand_R'',
      ''UpperLeg_L'', ''LowerLeg_L'', ''Foot_L'',
      ''UpperLeg_R'', ''LowerLeg_R'', ''Foot_R'']"

definition humanoid_rig :: rig where
  "humanoid_rig =
     \<lparr>pose_bones = (\<lambda>n. if n \<in> set humanoid_bone_names
                          then Some \<lparr>rotation_euler = Vector 0 0 0,
                                     pose_location = Vector 0 0 0\<rparr>
                          else None),
      actions = [], action = None, nla_tracks = []\<rparr>"

text \<open>What one call keys: the bone, the channel, the frame and the value.\<close>

fun call_bone :: "keyframe_call \<Rightarrow> string" where
  "call_bone (Rot b rx ry rz f) = b"
| "call_bone (Loc b x y z f) = b"

fun call_path :: "keyframe_call \<Rightarrow> data_path" where
  "call_path (Rot b rx ry rz f) = Rotation_euler"
| "call_path (Loc b x y z f) = Location"

fun call_frame :: "keyframe_call \<Rightarrow> int" where
  "call_frame (Rot b rx ry rz f) = f"
| "call_frame (Loc b x y z f) = f"

fun call_value :: "keyframe_call \<Rightarrow> vector" where
  "call_value (Rot b rx ry rz f) = Vector (rad rx) (rad ry) (rad rz)"
| "call_value (Loc b x y z f) = Vector x y z"

text \<open>The values that a sequence of calls keys at frame \<open>f\<close>, in call order.\<close>

definition pose_at :: "int \<Rightarrow> keyframe_call list \<Rightarrow> ((string \<times> data_path) \<times> vector) list" where
  "pose_at f cs = map (\<lambda>c. ((call_bone c, call_path c), call_value c))
                    (filter (\<lambda>c. call_frame c = f) cs)"

text \<open>The keyframes that a sequence of calls leaves on an empty action, for an armature
  whose pose bones are those of \<open>B\<close>: a later call overwrites an earlier one.\<close>

definition keyed_by :: "string set \<Rightarrow> keyframe_call list \<Rightarrow> keyframes" where
  "keyed_by B cs =
     map_of (rev (map (\<lambda>c. ((call_bone c, call_path c, call_frame c), call_value c))
                    (filter (\<lambda>c. call_bone c \<in> B) cs)))"

definition idle_calls :: "keyframe_call list" where
  "idle_calls = concat (map idle_rest [1, 60]) @ idle_peak"

definition walk_calls :: "keyframe_call list" where
  "walk_calls = concat (map walk_left_contact [1, 30]) @ walk_left_passing
                  @ walk_right_contact @ walk_right_passing"

definition run_calls_of_run :: "keyframe_call list" where
  "run_calls_of_run = concat (map run_left_contact [1, 20]) @ run_left_passing
                        @ run_right_contact @ run_right_passing"

section \<open>Buildings (generate_buildings.py)\<close>

subsection \<open>cottage_color\<close>

text \<open>The positional classifier of \<open>generate_cottage\<close>; \<open>offset_x\<close> is the constant its
  closure captures.\<close>

definition cottage_color :: "real \<Rightarrow> vector \<Rightarrow> color" where
  "cottage_color offset_x pos =
     (let lx = vx pos - offset_x
      in if lx > 0.90 \<and> vy pos > 1.0 \<and> vz pos > 2.0 then (0.45, 0.42, 0.40, 1.0)
         else if vz pos > 1.85 then (0.32, 0.22, 0.12, 1.0)
         else if vz pos < 0.32 then (0.50, 0.48, 0.45, 1.0)
         else if \<bar>lx\<bar> < 0.32 \<and> \<bar>vy pos\<bar> < 0.10 \<and> vz pos < 1.35 then (0.30, 0.18, 0.08, 1.0)
         else if lx > 1.35 \<and> vz pos > 1.0 \<and> vz pos < 1.45 then (0.28, 0.16, 0.06, 1.0)
         else if vz pos > 0.30 \<and> vz pos < 1.90
              then (let grain = sin (vz pos * 15) * 0.02
                    in (0.55 + grain, 0.38 + grain, 0.20, 1.0))
         else (0.50, 0.35, 0.18, 1.0))"

subsection \<open>set_origin_bottom\<close>

text \<open>Python's \<open>min\<close> and \<open>max\<close> of a list: ValueError on the empty list.\<close>

fun py_min :: "real list \<Rightarrow> error + real" where
  "py_min [] = Inl ValueError"
| "py_min (x # xs) = Inr (fold min xs x)"

fun py_max :: "real list \<Rightarrow> error + real" where
  "py_max [] = Inl ValueError"
| "py_max (x # xs) = Inr (fold max xs x)"

definition set_origin_bottom :: "mesh object \<Rightarrow> real \<Rightarrow> error + mesh object" where
  "set_origin_bottom obj z_offset =
     (let verts = vertices (data obj);
          xs = map (\<lambda>v. vx (co v)) verts;
          ys = map (\<lambda>v. vy (co v)) verts;
          zs = map (\<lambda>v. vz (co v)) verts
      in case py_min xs of Inl e \<Rightarrow> Inl e | Inr min_xs \<Rightarrow>
         case py_max xs of Inl e \<Rightarrow> Inl e | Inr max_xs \<Rightarrow>
         case py_min ys of Inl e \<Rightarrow> Inl e | Inr min_ys \<Rightarrow>
         case py_max ys of Inl e \<Rightarrow> Inl e | Inr max_ys \<Rightarrow>
         case py_min zs of Inl e \<Rightarrow> Inl e | Inr min_zs \<Rightarrow>
           (let cx = (min_xs + max_xs) * 0.5;
                cy = (min_ys + max_ys) * 0.5;
                min_z = min_zs + z_offset;
                moved = map (\<lambda>v. v\<lparr>co := Vector (vx (co v) - cx) (vy (co v) - cy)
                                              (vz (co v) - min_z)\<rparr>) verts
            in Inr (obj\<lparr>data := (data obj)\<lparr>vertices := moved\<rparr>,
                         location := Vector 0 0 0\<rparr>)))"

text \<open>A mesh of two vertices, for the scenarios of \<open>set_origin_bottom\<close>.\<close>

definition two_vertex_obj :: "mesh object" where
  "two_vertex_obj =
     \<lparr>matrix_world = identity_matrix, location = Vector 6 0 0,
      data = \<lparr>vertices = [\<lparr>co = Vector 5 1 2, normal = Vector 0 0 1\<rparr>,
                         \<lparr>co = Vector 7 3 4, normal = Vector 0 0 1\<rparr>],
              polygons = [], color_attributes = []\<rparr>,
      vertex_groups = []\<rparr>"

subsection \<open>add_part\<close>









section \<open>Rocks and trees (generate_rocks.py, generate_trees.py)\<close>

subsection \<open>set_vertex_colors_with_moss\<close>

text \<open>The corners of one polygon (the inner loop). The division by \<open>1.0 - moss_threshold\<close>
  raises ZeroDivisionError when the threshold is 1.\<close>

fun color_corners ::
  "real \<Rightarrow> color \<Rightarrow> color \<Rightarrow> real \<Rightarrow> nat list \<Rightarrow> color_layer \<Rightarrow> error + color_layer" where
  "color_corners normal_z base_color moss_color moss_threshold [] layer = Inr layer"
| "color_corners normal_z base_color moss_color moss_threshold (loop_idx # rest) layer =
     (if normal_z > moss_threshold
      then (if 1 - moss_threshold = 0 then Inl ZeroDivisionError
            else (let blend = (normal_z - moss_threshold) / (1 - moss_threshold);
                      r = fst base_color * (1 - blend) + fst moss_color * blend;
                      g = fst (snd base_color) * (1 - blend) + fst (snd moss_color) * blend;
                      b = fst (snd (snd base_color)) * (1 - blend)
                            + fst (snd (snd moss_color)) * blend
                  in color_corners normal_z base_color moss_color moss_threshold rest
                       (layer(loop_idx \<mapsto> (r, g, b, 1)))))
      else color_corners normal_z base_color moss_color moss_threshold rest
             (layer(loop_idx \<mapsto> base_color)))"

fun color_polygons ::
  "color \<Rightarrow> color \<Rightarrow> real \<Rightarrow> polygon list \<Rightarrow> color_layer \<Rightarrow> error + color_layer" where
  "color_polygons base_color moss_color moss_threshold [] layer = Inr layer"
| "color_polygons base_color moss_color moss_threshold (poly # rest) layer =
     (case color_corners (vz (poly_normal poly)) base_color moss_color moss_threshold
             (loop_indices poly) layer of
        Inl e \<Rightarrow> Inl e
      | Inr layer' \<Rightarrow> color_polygons base_color moss_color moss_threshold rest layer')"

definition set_vertex_colors_with_moss ::
  "mesh object \<Rightarrow> color \<Rightarrow> color \<Rightarrow> real \<Rightarrow> error + mesh object" where
  "set_vertex_colors_with_moss obj base_color moss_color moss_threshold =
     (let mesh = data obj;
          attrs = (if color_attributes mesh = [] then [Map.empty]
                   else color_attributes mesh)
      in case attrs of
           [] \<Rightarrow> Inr obj
         | color_layer # others \<Rightarrow>
             (case color_polygons base_color moss_color moss_threshold
                     (polygons mesh) color_layer of
                Inl e \<Rightarrow> Inl e
              | Inr colored \<Rightarrow>
                  Inr (obj\<lparr>data := mesh\<lparr>color_attributes := colored # others\<rparr>\<rparr>)))"

text \<open>The color that the function writes on every corner of a polygon whose face
  normal has vertical component \<open>normal_z\<close>.\<close>

definition moss_blend :: "real \<Rightarrow> real \<Rightarrow> real" where
  "moss_blend normal_z moss_threshold = (normal_z - moss_threshold) / (1 - moss_threshold)"

definition corner_color :: "real \<Rightarrow> color \<Rightarrow> color \<Rightarrow> real \<Rightarrow> color" where
  "corner_color normal_z base_color moss_color moss_threshold =
     (if normal_z > moss_threshold
      then (let blend = moss_blend normal_z moss_threshold
            in (fst base_color * (1 - blend) + fst moss_color * blend,
                fst (snd base_color) * (1 - blend) + fst (snd moss_color) * blend,
                fst (snd (snd base_color)) * (1 - blend) + fst (snd (snd moss_color)) * blend,
                1))
      else base_color)"

text \<open>The color that a call has left on corner \<open>i\<close> of the first color layer.\<close>

definition written_color :: "error + mesh object \<Rightarrow> nat \<Rightarrow> color option" where
  "written_color r i =
     (case r of
        Inl e \<Rightarrow> None
      | Inr obj \<Rightarrow> (case color_attributes (data obj) of
                     [] \<Rightarrow> None
                   | layer # _ \<Rightarrow> layer i))"

text \<open>A rock of two triangles, one facing up and one facing sideways.\<close>

definition two_face_rock :: "mesh object" where
  "two_face_rock =
     \<lparr>matrix_world = identity_matrix, location = Vector 0 0 0,
      data = \<lparr>vertices = [\<lparr>co = Vector 0 0 0, normal = Vector 0 0 1\<rparr>,
                         \<lparr>co = Vector 1 0 0, normal = Vector 0 0 1\<rparr>,
                         \<lparr>co = Vector 0 1 0, normal = Vector 0 0 1\<rparr>,
                         \<lparr>co = Vector 0 0 (- 1), normal = Vector 1 0 0\<rparr>],
              polygons = [\<lparr>poly_normal = Vector 0 0 1, loop_indices = [0, 1, 2]\<rparr>,
                          \<lparr>poly_normal = Vector 0 1 0, loop_indices = [3, 4, 5]\<rparr>],
              color_attributes = []\<rparr>,
      vertex_groups = []\<rparr>"

subsection \<open>displace_vertices\<close>








section \<open>Proofs\<close>

subsection \<open>Geometry of closest_point_on_segment\<close>

lemma length_squared_nonneg: "0 \<le> length_squared v"
  by (cases v) (simp add: length_squared_def)

lemma vlength_nonneg: "0 \<le> vlength v"
  by (simp add: vlength_def length_squared_nonneg)


lemma vlength_less_iff: "vlength u < vlength v \<longleftrightarrow> length_squared u < length_squared v"
  by (simp add: vlength_def)








subsection \<open>The scan over the candidate bones\<close>

lemma nearest_bone_from_Some:
  "\<exists>r. nearest_bone p cs (Some n0) (Some d0) = Some r \<and>
     ((r = n0 \<and> (\<forall>c\<in>set cs. d0 \<le> bone_distance p c)) \<or>
      (\<exists>pre c post. cs = pre @ c # post \<and> r = fst c \<and> bone_distance p c < d0 \<and>
         (\<forall>c'\<in>set pre. bone_distance p c < bone_distance p c') \<and>
         (\<forall>c'\<in>set post. bone_distance p c \<le> bone_distance p c')))"
proof (induction cs arbitrary: n0 d0)
  case Nil
  then show ?case by simp
next
  case (Cons c0 cs)
  obtain m h t where c0: "c0 = (m, h, t)" by (cases c0) auto
  show ?case
  proof (cases "bone_distance p c0 < d0")
    case True
    then have step: "nearest_bone p (c0 # cs) (Some n0) (Some d0)
                 = nearest_bone p cs (Some m) (Some (bone_distance p c0))"
      by (simp add: c0 dist_less_def Let_def)
    from Cons.IH [of m "bone_distance p c0"] obtain r where
      r: "nearest_bone p cs (Some m) (Some (bone_distance p c0)) = Some r"
      and alt: "(r = m \<and> (\<forall>c\<in>set cs. bone_distance p c0 \<le> bone_distance p c)) \<or>
        (\<exists>pre c post. cs = pre @ c # post \<and> r = fst c
           \<and> bone_distance p c < bone_distance p c0 \<and>
           (\<forall>c'\<in>set pre. bone_distance p c < bone_distance p c') \<and>
           (\<forall>c'\<in>set post. bone_distance p c \<le> bone_distance p c'))"
      by blast
    from alt show ?thesis
    proof
      assume a: "r = m \<and> (\<forall>c\<in>set cs. bone_distance p c0 \<le> bone_distance p c)"
      have "c0 # cs = [] @ c0 # cs \<and> r = fst c0 \<and> bone_distance p c0 < d0 \<and>
         (\<forall>c'\<in>set []. bone_distance p c0 < bone_distance p c') \<and>
         (\<forall>c'\<in>set cs. bone_distance p c0 \<le> bone_distance p c')"
        using a True by (simp add: c0)
      then show ?thesis using step r by metis
    next
      assume "\<exists>pre c post. cs = pre @ c # post \<and> r = fst c
           \<and> bone_distance p c < bone_distance p c0 \<and>
           (\<forall>c'\<in>set pre. bone_distance p c < bone_distance p c') \<and>
           (\<forall>c'\<in>set post. bone_distance p c \<le> bone_distance p c')"
      then obtain pre c post where b: "cs = pre @ c # post" "r = fst c"
        "bone_distance p c < bone_distance p c0"
        "\<forall>c'\<in>set pre. bone_distance p c < bone_distance p c'"
        "\<forall>c'\<in>set post. bone_distance p c \<le> bone_distance p c'"
        by blast
      have "c0 # cs = (c0 # pre) @ c # post \<and> r = fst c \<and> bone_distance p c < d0 \<and>
         (\<forall>c'\<in>set (c0 # pre). bone_distance p c < bone_distance p c') \<and>
         (\<forall>c'\<in>set post. bone_distance p c \<le> bone_distance p c')"
        using b True by auto
      then show ?thesis using step r by metis
    qed
  next
    case False
    then have step: "nearest_bone p (c0 # cs) (Some n0) (Some d0)
                 = nearest_bone p cs (Some n0) (Some d0)"
      by (simp add: c0 dist_less_def Let_def)
    from Cons.IH [of n0 d0] obtain r where
      r: "nearest_bone p cs (Some n0) (Some d0) = Some r"
      and alt: "(r = n0 \<and> (\<forall>c\<in>set cs. d0 \<le> bone_distance p c)) \<or>
        (\<exists>pre c post. cs = pre @ c # post \<and> r = fst c \<and> bone_distance p c < d0 \<and>
           (\<forall>c'\<in>set pre. bone_distance p c < bone_distance p c') \<and>
           (\<forall>c'\<in>set post. bone_distance p c \<le> bone_distance p c'))"
      by blast
    from alt show ?thesis
    proof
      assume "r = n0 \<and> (\<forall>c\<in>set cs. d0 \<le> bone_distance p c)"
      with False have "r = n0 \<and> (\<forall>c\<in>set (c0 # cs). d0 \<le> bone_distance p c)"
        by auto
      then show ?thesis using step r by metis
    next
      assume "\<exists>pre c post. cs = pre @ c # post \<and> r = fst c \<and> bone_distance p c < d0 \<and>
           (\<forall>c'\<in>set pre. bone_distance p c < bone_distance p c') \<and>
           (\<forall>c'\<in>set post. bone_distance p c \<le> bone_distance p c')"
      then obtain pre c post where b: "cs = pre @ c # post" "r = fst c"
        "bone_distance p c < d0"
        "\<forall>c'\<in>set pre. bone_distance p c < bone_distance p c'"
        "\<forall>c'\<in>set post. bone_distance p c \<le> bone_distance p c'"
        by blast
      have "c0 # cs = (c0 # pre) @ c # post \<and> r = fst c \<and> bone_distance p c < d0 \<and>
         (\<forall>c'\<in>set (c0 # pre). bone_distance p c < bone_distance p c') \<and>
         (\<forall>c'\<in>set post. bone_distance p c \<le> bone_distance p c')"
        using b False by auto
      then show ?thesis using step r by metis
    qed
  qed
qed

lemma nearest_bone_first_min:
  assumes "cs \<noteq> []"
  shows "\<exists>pre c post. cs = pre @ c # post \<and>
           nearest_bone p cs None None = Some (fst c) \<and>
           (\<forall>c'\<in>set pre. bone_distance p c < bone_distance p c') \<and>
           (\<forall>c'\<in>set post. bone_distance p c \<le> bone_distance p c')"
proof -
  from assms obtain c0 rest where cs: "cs = c0 # rest" by (cases cs) auto
  obtain m h t where c0: "c0 = (m, h, t)" by (cases c0) auto
  have step: "nearest_bone p cs None None
                = nearest_bone p rest (Some m) (Some (bone_distance p c0))"
    by (simp add: cs c0 dist_less_def Let_def)
  from nearest_bone_from_Some [of p rest m "bone_distance p c0"] obtain r where
    r: "nearest_bone p rest (Some m) (Some (bone_distance p c0)) = Some r"
    and alt: "(r = m \<and> (\<forall>c\<in>set rest. bone_distance p c0 \<le> bone_distance p c)) \<or>
      (\<exists>pre c post. rest = pre @ c # post \<and> r = fst c
         \<and> bone_distance p c < bone_distance p c0 \<and>
         (\<forall>c'\<in>set pre. bone_distance p c < bone_distance p c') \<and>
         (\<forall>c'\<in>set post. bone_distance p c \<le> bone_distance p c'))"
    by blast
  from alt show ?thesis
  proof
    assume a: "r = m \<and> (\<forall>c\<in>set rest. bone_distance p c0 \<le> bone_distance p c)"
    have "cs = [] @ c0 # rest \<and> nearest_bone p cs None None = Some (fst c0) \<and>
           (\<forall>c'\<in>set []. bone_distance p c0 < bone_distance p c') \<and>
           (\<forall>c'\<in>set rest. bone_distance p c0 \<le> bone_distance p c')"
      using a step r by (simp add: cs c0)
    then show ?thesis by blast
  next
    assume "\<exists>pre c post. rest = pre @ c # post \<and> r = fst c
         \<and> bone_distance p c < bone_distance p c0 \<and>
         (\<forall>c'\<in>set pre. bone_distance p c < bone_distance p c') \<and>
         (\<forall>c'\<in>set post. bone_distance p c \<le> bone_distance p c')"
    then obtain pre c post where b: "rest = pre @ c # post" "r = fst c"
      "bone_distance p c < bone_distance p c0"
      "\<forall>c'\<in>set pre. bone_distance p c < bone_distance p c'"
      "\<forall>c'\<in>set post. bone_distance p c \<le> bone_distance p c'"
      by blast
    have "cs = (c0 # pre) @ c # post \<and> nearest_bone p cs None None = Some (fst c) \<and>
           (\<forall>c'\<in>set (c0 # pre). bone_distance p c < bone_distance p c') \<and>
           (\<forall>c'\<in>set post. bone_distance p c \<le> bone_distance p c')"
      using b step r by (auto simp: cs)
    then show ?thesis by blast
  qed
qed

lemma nearest_bone_in_names:
  assumes "nearest_bone p cs None None = Some n"
  shows "n \<in> fst ` set cs"
proof (cases "cs = []")
  case True
  with assms show ?thesis by simp
next
  case False
  from nearest_bone_first_min [OF False, of p] obtain pre c post where
    "cs = pre @ c # post" "nearest_bone p cs None None = Some (fst c)"
    by blast
  with assms show ?thesis by auto
qed

subsection \<open>The vertex groups after the loop\<close>

lemma vg_add_distinct:
  assumes "distinct (map fst gs)" and "n \<in> fst ` set gs"
  shows "vg_add gs n i w =
           Inr (map (\<lambda>(m, ws). (m, if m = n then ws(i \<mapsto> w) else ws)) gs)"
  using assms
proof (induction gs)
  case Nil
  then show ?case by simp
next
  case (Cons g gs)
  obtain m ws where g: "g = (m, ws)" by (cases g) auto
  show ?case
  proof (cases "m = n")
    case True
    with Cons.prems have "n \<notin> fst ` set gs" by (simp add: g)
    then have "map (\<lambda>(m, ws). (m, if m = n then ws(i \<mapsto> w) else ws)) gs = gs"
      by (intro map_idI) (auto simp: image_iff)
    with True show ?thesis by (simp add: g)
  next
    case False
    with Cons.prems have "distinct (map fst gs)" "n \<in> fst ` set gs"
      by (auto simp: g)
    from Cons.IH [OF this] False show ?thesis by (simp add: g)
  qed
qed

lemma assign_vertices_result:
  assumes "distinct (map fst gs)" and "fst ` set bd \<subseteq> fst ` set gs"
  shows "assign_vertices M bd ivs gs =
           Inr (map (\<lambda>(m, ws). (m, \<lambda>j. if (\<exists>v. (j, v) \<in> set ivs \<and> chosen_bone M bd v = Some m)
                                        then Some 1 else ws j)) gs)"
  using assms
proof (induction ivs arbitrary: gs)
  case Nil
  have "map (\<lambda>(m, ws). (m, \<lambda>j. ws j)) gs = gs"
    by (intro map_idI) auto
  then show ?case by simp
next
  case (Cons iv ivs)
  obtain i v where iv: "iv = (i, v)" by (cases iv) auto
  show ?case
  proof (cases "chosen_bone M bd v")
    case None
    then have step: "assign_vertices M bd (iv # ivs) gs = assign_vertices M bd ivs gs"
      by (simp add: iv chosen_bone_def split: option.splits if_splits)
    have "\<And>j m. (\<exists>v'. (j, v') \<in> set (iv # ivs) \<and> chosen_bone M bd v' = Some m)
                \<longleftrightarrow> (\<exists>v'. (j, v') \<in> set ivs \<and> chosen_bone M bd v' = Some m)"
      using None by (auto simp: iv)
    then show ?thesis
      using Cons.IH [OF Cons.prems] step by simp
  next
    case (Some n)
    then have nb: "nearest_bone (matmul M (co v)) bd None None = Some n" and n: "n \<noteq> []"
      by (auto simp: chosen_bone_def split: option.splits if_splits)
    from nearest_bone_in_names [OF nb] Cons.prems have n_in: "n \<in> fst ` set gs"
      by blast
    let ?f = "\<lambda>(m, ws). (m, if m = n then ws(i \<mapsto> (1::real)) else ws)"
    let ?gs1 = "map ?f gs"
    have add: "vg_add gs n i 1 = Inr ?gs1"
      by (rule vg_add_distinct [OF Cons.prems(1) n_in])
    have step: "assign_vertices M bd (iv # ivs) gs = assign_vertices M bd ivs ?gs1"
      by (simp add: iv nb n add)
    have fst1: "map fst ?gs1 = map fst gs"
      by (simp add: case_prod_unfold comp_def)
    have d1: "distinct (map fst ?gs1)"
      unfolding fst1 by (rule Cons.prems(1))
    have s1: "fst ` set bd \<subseteq> fst ` set ?gs1"
    proof -
      have "fst ` set ?gs1 = set (map fst ?gs1)" by (simp only: set_map)
      also have "\<dots> = fst ` set gs" by (simp only: fst1 set_map)
      finally show ?thesis using Cons.prems(2) by simp
    qed
    have "map (\<lambda>(m, ws). (m, \<lambda>j. if (\<exists>v'. (j, v') \<in> set ivs \<and> chosen_bone M bd v' = Some m)
                                 then Some 1 else ws j)) ?gs1
          = map (\<lambda>(m, ws). (m, \<lambda>j. if (\<exists>v'. (j, v') \<in> set (iv # ivs)
                                            \<and> chosen_bone M bd v' = Some m)
                                 then Some 1 else ws j)) gs"
      using Some by (auto simp: iv fun_eq_iff)
    then show ?thesis
      using Cons.IH [OF d1 s1] step by simp
  qed
qed

lemma foldl_vertex_groups_new:
  "foldl (\<lambda>gs (bone_name, _, _). vertex_groups_new gs bone_name) acc bd
     = acc @ map (\<lambda>e. (fst e, Map.empty)) bd"
  by (induction bd arbitrary: acc) (auto simp: vertex_groups_new_def)

lemma collect_bone_data_names:
  "map fst (collect_bone_data arm_obj)
     = map name (filter (\<lambda>b. name b \<noteq> ''Root'') (bones (data arm_obj)))"
  by (simp add: collect_bone_data_def comp_def)

lemma collect_bone_data_distinct:
  assumes "distinct (map name (bones (data arm_obj)))"
  shows "distinct (map fst (collect_bone_data arm_obj))"
  unfolding collect_bone_data_names using assms by (rule distinct_map_filter)

lemma assign_weights_result:
  assumes "distinct (map name (bones (data arm_obj)))"
  shows "assign_weights_by_bones mesh_obj arm_obj =
     Inr (mesh_obj\<lparr>vertex_groups :=
       map (\<lambda>e. (fst e,
                 \<lambda>j. if j < length (vertices (data mesh_obj)) \<and>
                         chosen_bone (matrix_world mesh_obj) (collect_bone_data arm_obj)
                           (vertices (data mesh_obj) ! j) = Some (fst e)
                      then Some 1 else None))
           (collect_bone_data arm_obj)\<rparr>)"
proof -
  let ?bd = "collect_bone_data arm_obj"
  let ?gs = "map (\<lambda>e. (fst e, Map.empty :: nat \<rightharpoonup> real)) ?bd"
  have fst_gs: "map fst ?gs = map fst ?bd" by (simp add: comp_def)
  have d: "distinct (map fst ?gs)"
    unfolding fst_gs by (rule collect_bone_data_distinct [OF assms])
  have "fst ` set ?gs = set (map fst ?gs)" by (simp only: set_map)
  also have "\<dots> = fst ` set ?bd" by (simp only: fst_gs set_map)
  finally have sub: "fst ` set ?bd \<subseteq> fst ` set ?gs" by simp
  have mem: "\<And>j m. (\<exists>v. (j, v) \<in> set (enumerate 0 (vertices (data mesh_obj))) \<and>
                     chosen_bone (matrix_world mesh_obj) ?bd v = Some m)
               \<longleftrightarrow> (j < length (vertices (data mesh_obj)) \<and>
                    chosen_bone (matrix_world mesh_obj) ?bd (vertices (data mesh_obj) ! j)
                      = Some m)"
    by (auto simp: in_set_enumerate_eq)
  show ?thesis
    by (simp add: assign_weights_by_bones_def Let_def vertex_groups_clear_def
        foldl_vertex_groups_new assign_vertices_result [OF d sub] mem comp_def)
qed

subsection \<open>Claims about the binder\<close>











text \<open>
  Claim C10. For an armature (whose bone names are distinct) and two mesh objects with
  the same mesh data and world matrix but any prior vertex groups,
  \<open>assign_weights_by_bones\<close> succeeds on both and leaves the same vertex groups: their
  names are the names of the bones other than Root, in the armature's enumeration
  order, and the (vertex, weight) entries agree.
\<close>

theorem assign_weights_by_bones_ignores_prior_groups:
  assumes "distinct (map name (bones (data arm_obj)))"
    and "data m1 = data m2" and "matrix_world m1 = matrix_world m2"
  shows "\<exists>r1 r2. assign_weights_by_bones m1 arm_obj = Inr r1 \<and>
           assign_weights_by_bones m2 arm_obj = Inr r2 \<and>
           vertex_groups r1 = vertex_groups r2 \<and>
           map fst (vertex_groups r1)
             = map name (filter (\<lambda>b. name b \<noteq> ''Root'') (bones (data arm_obj)))"
  using assms
  by (simp add: assign_weights_result comp_def collect_bone_data_names [symmetric])

theorem assign_weights_by_bones_ignores_prior_groups_witness:
  "distinct (map name (bones (data scenario_arm))) \<and>
   data scenario_mesh = data (scenario_mesh\<lparr>vertex_groups := []\<rparr>) \<and>
   matrix_world scenario_mesh = matrix_world (scenario_mesh\<lparr>vertex_groups := []\<rparr>) \<and>
   vertex_groups scenario_mesh \<noteq> vertex_groups (scenario_mesh\<lparr>vertex_groups := []\<rparr>) \<and>
   (\<exists>r1 r2. assign_weights_by_bones scenario_mesh scenario_arm = Inr r1 \<and>
      assign_weights_by_bones (scenario_mesh\<lparr>vertex_groups := []\<rparr>) scenario_arm = Inr r2 \<and>
      vertex_groups r1 = vertex_groups r2 \<and>
      map fst (vertex_groups r1) = [''BoneA'', ''BoneB''])"
proof -
  have h1: "distinct (map name (bones (data scenario_arm)))"
    by (simp add: scenario_arm_def)
  have h2: "data scenario_mesh = data (scenario_mesh\<lparr>vertex_groups := []\<rparr>)" by simp
  have h3: "matrix_world scenario_mesh = matrix_world (scenario_mesh\<lparr>vertex_groups := []\<rparr>)"
    by simp
  have h4: "vertex_groups scenario_mesh \<noteq> vertex_groups (scenario_mesh\<lparr>vertex_groups := []\<rparr>)"
    by (simp add: scenario_mesh_def)
  have names: "map name (filter (\<lambda>b. name b \<noteq> ''Root'') (bones (data scenario_arm)))
                 = [''BoneA'', ''BoneB'']"
    by (simp add: scenario_arm_def)
  from assign_weights_by_bones_ignores_prior_groups [OF h1 h2 h3]
  show ?thesis using h1 h2 h3 h4 unfolding names by blast
qed

subsection \<open>Keyframes left by a sequence of calls\<close>

lemma run_call_effect:
  assumes "action arm = Some a" and "a < length (actions arm)"
  shows "action (run_call arm c) = Some a"
    and "length (actions (run_call arm c)) = length (actions arm)"
    and "dom (pose_bones (run_call arm c)) = dom (pose_bones arm)"
    and "nla_tracks (run_call arm c) = nla_tracks arm"
    and "fcurves (actions (run_call arm c) ! a) =
           (if call_bone c \<in> dom (pose_bones arm)
            then (fcurves (actions arm ! a))
                   ((call_bone c, call_path c, call_frame c) \<mapsto> call_value c)
            else fcurves (actions arm ! a))"
  using assms
  by (cases c; auto simp: set_bone_rotation_def set_bone_location_def keyframe_insert_def
        Let_def split: option.splits)+

lemma run_calls_effect:
  assumes "action arm = Some a" and "a < length (actions arm)"
  shows "action (run_calls arm cs) = Some a \<and>
         length (actions (run_calls arm cs)) = length (actions arm) \<and>
         dom (pose_bones (run_calls arm cs)) = dom (pose_bones arm) \<and>
         nla_tracks (run_calls arm cs) = nla_tracks arm \<and>
         fcurves (actions (run_calls arm cs) ! a) =
           fcurves (actions arm ! a) ++ keyed_by (dom (pose_bones arm)) cs"
  using assms
proof (induction cs arbitrary: arm)
  case Nil
  then show ?case by (simp add: run_calls_def keyed_by_def)
next
  case (Cons c cs)
  let ?arm1 = "run_call arm c"
  note e = run_call_effect [OF Cons.prems, of c]
  have a1: "action ?arm1 = Some a" and l1: "a < length (actions ?arm1)"
    using e Cons.prems by simp_all
  have step: "run_calls arm (c # cs) = run_calls ?arm1 cs"
    by (simp add: run_calls_def)
  have fc: "fcurves (actions arm ! a) ++ keyed_by (dom (pose_bones arm)) (c # cs)
          = fcurves (actions ?arm1 ! a) ++ keyed_by (dom (pose_bones arm)) cs"
    by (simp add: e(5) keyed_by_def map_add_assoc [symmetric] map_add_upd_left)
  from Cons.IH [OF a1 l1] show ?case
    unfolding step using e fc by simp
qed

lemma run_calls_append: "run_calls (run_calls arm xs) ys = run_calls arm (xs @ ys)"
  by (simp add: run_calls_def)

lemma clip_after_calls:
  "pushed_clip (push_to_nla (run_calls (reset_pose (fst (create_action arm n))) cs)
                  (snd (create_action arm n)) m)
     = keyed_by (dom (pose_bones arm)) cs"
proof -
  let ?a = "length (actions arm)"
  let ?arm0 = "reset_pose (fst (create_action arm n))"
  have a0: "action ?arm0 = Some ?a" and l0: "?a < length (actions ?arm0)"
    by (simp_all add: reset_pose_def create_action_def)
  have d0: "dom (pose_bones ?arm0) = dom (pose_bones arm)"
    by (auto simp: reset_pose_def create_action_def dom_def)
  have f0: "fcurves (actions ?arm0 ! ?a) = Map.empty"
    by (simp add: reset_pose_def create_action_def)
  from run_calls_effect [OF a0 l0, of cs]
  have "fcurves (actions (run_calls ?arm0 cs) ! ?a) = keyed_by (dom (pose_bones arm)) cs"
    by (simp add: d0 f0)
  then show ?thesis
    by (simp add: pushed_clip_def push_to_nla_def create_action_def)
qed

lemma pushed_clip_create_idle:
  "pushed_clip (create_idle arm) = keyed_by (dom (pose_bones arm)) idle_calls"
  using clip_after_calls [of arm "''Idle''" idle_calls "''Idle''"]
  by (simp add: create_idle_def idle_calls_def Let_def case_prod_unfold run_calls_append)

lemma pushed_clip_create_walk:
  "pushed_clip (create_walk arm) = keyed_by (dom (pose_bones arm)) walk_calls"
  using clip_after_calls [of arm "''Walk''" walk_calls "''Walk''"]
  by (simp add: create_walk_def walk_calls_def Let_def case_prod_unfold run_calls_append)

lemma pushed_clip_create_run:
  "pushed_clip (create_run arm) = keyed_by (dom (pose_bones arm)) run_calls_of_run"
  using clip_after_calls [of arm "''Run''" run_calls_of_run "''Run''"]
  by (simp add: create_run_def run_calls_of_run_def Let_def case_prod_unfold run_calls_append)

lemma keyed_by_lookup:
  "keyed_by B cs (b, p, f) = (if b \<in> B then map_of (rev (pose_at f cs)) (b, p) else None)"
proof (induction cs)
  case Nil
  then show ?case by (simp add: keyed_by_def pose_at_def)
next
  case (Cons c cs)
  then show ?case
    by (auto simp: keyed_by_def pose_at_def map_add_def split: option.splits)
qed

lemmas clip_defs =
  idle_calls_def walk_calls_def run_calls_of_run_def
  idle_rest_def idle_peak_def
  walk_left_contact_def walk_left_passing_def walk_right_contact_def walk_right_passing_def
  run_left_contact_def run_left_passing_def run_right_contact_def run_right_passing_def

lemma idle_first_last: "pose_at 1 idle_calls = pose_at 60 idle_calls"
  by (simp add: pose_at_def clip_defs)

lemma walk_first_last: "pose_at 1 walk_calls = pose_at 30 walk_calls"
  by (simp add: pose_at_def clip_defs)

lemma run_first_last: "pose_at 1 run_calls_of_run = pose_at 20 run_calls_of_run"
  by (simp add: pose_at_def clip_defs)

lemma keyed_by_Some_channel:
  assumes "keyed_by B cs (b, p, f) \<noteq> None"
  shows "b \<in> B \<and> (b, p) \<in> (\<lambda>c. (call_bone c, call_path c)) ` set cs"
proof -
  from assms have b: "b \<in> B" and m: "map_of (rev (pose_at f cs)) (b, p) \<noteq> None"
    by (auto simp: keyed_by_lookup split: if_splits)
  from m obtain v where "map_of (rev (pose_at f cs)) (b, p) = Some v" by auto
  then have "((b, p), v) \<in> set (rev (pose_at f cs))" by (rule map_of_SomeD)
  then have "(b, p) \<in> (\<lambda>c. (call_bone c, call_path c)) ` set cs"
    by (auto simp: pose_at_def)
  with b show ?thesis by simp
qed

lemma keyed_at_frame:
  assumes "b \<in> B" and "(b, p) \<in> fst ` set (pose_at f cs)"
  shows "keyed_by B cs (b, p, f) \<noteq> None"
proof -
  from assms(2) have "(b, p) \<in> fst ` set (rev (pose_at f cs))" by simp
  then have "map_of (rev (pose_at f cs)) (b, p) \<noteq> None"
    by (simp only: map_of_eq_None_iff not_not)
  with assms(1) show ?thesis by (simp add: keyed_by_lookup)
qed

lemma idle_channels:
  "(\<lambda>c. (call_bone c, call_path c)) ` set idle_calls \<subseteq> fst ` set (pose_at 1 idle_calls)"
  by (simp add: pose_at_def clip_defs)

lemma walk_channels:
  "(\<lambda>c. (call_bone c, call_path c)) ` set walk_calls \<subseteq> fst ` set (pose_at 1 walk_calls)"
  by (simp add: pose_at_def clip_defs)

lemma run_channels:
  "(\<lambda>c. (call_bone c, call_path c)) ` set run_calls_of_run
     \<subseteq> fst ` set (pose_at 1 run_calls_of_run)"
  by (simp add: pose_at_def clip_defs)

lemma clip_closed:
  assumes same: "pose_at f1 cs = pose_at f2 cs"
    and chans: "(\<lambda>c. (call_bone c, call_path c)) ` set cs \<subseteq> fst ` set (pose_at f1 cs)"
  shows "keyed_by B cs (b, p, f1) = keyed_by B cs (b, p, f2)"
    and "(\<exists>f. keyed_by B cs (b, p, f) \<noteq> None) \<longrightarrow> keyed_by B cs (b, p, f1) \<noteq> None"
proof -
  show "keyed_by B cs (b, p, f1) = keyed_by B cs (b, p, f2)"
    by (simp add: keyed_by_lookup same)
  show "(\<exists>f. keyed_by B cs (b, p, f) \<noteq> None) \<longrightarrow> keyed_by B cs (b, p, f1) \<noteq> None"
  proof
    assume "\<exists>f. keyed_by B cs (b, p, f) \<noteq> None"
    then obtain f where "keyed_by B cs (b, p, f) \<noteq> None" by blast
    from keyed_by_Some_channel [OF this] chans
    have "b \<in> B" and "(b, p) \<in> fst ` set (pose_at f1 cs)" by auto
    then show "keyed_by B cs (b, p, f1) \<noteq> None" by (rule keyed_at_frame)
  qed
qed

lemma walk_upper_leg:
  "map_of (rev (pose_at 1 walk_calls)) (''UpperLeg_L'', Rotation_euler)
     = Some (Vector (rad (- 25)) (rad 0) (rad 0))"
  by (simp add: pose_at_def clip_defs)

subsection \<open>Claims about the animation clips\<close>

text \<open>
  Claim C3. For each looping clip (Idle, Walk, Run), whatever pose bones the armature
  has, and for every bone and channel: the value keyed at the clip's first frame equals
  the value keyed at its last frame (1 and 60 for Idle, 1 and 30 for Walk, 1 and 20 for
  Run), and a bone and channel keyed at any frame of the clip are keyed at the first
  frame. If the armature has the bone UpperLeg_L, its Walk rotation at frame 1 and at
  frame 30 is -25 degrees about the first Euler axis and 0 about the others.
\<close>

theorem looping_clips_close:
  "pushed_clip (create_idle arm) (b, p, 1) = pushed_clip (create_idle arm) (b, p, 60) \<and>
   pushed_clip (create_walk arm) (b, p, 1) = pushed_clip (create_walk arm) (b, p, 30) \<and>
   pushed_clip (create_run arm) (b, p, 1) = pushed_clip (create_run arm) (b, p, 20) \<and>
   ((\<exists>f. pushed_clip (create_idle arm) (b, p, f) \<noteq> None)
      \<longrightarrow> pushed_clip (create_idle arm) (b, p, 1) \<noteq> None) \<and>
   ((\<exists>f. pushed_clip (create_walk arm) (b, p, f) \<noteq> None)
      \<longrightarrow> pushed_clip (create_walk arm) (b, p, 1) \<noteq> None) \<and>
   ((\<exists>f. pushed_clip (create_run arm) (b, p, f) \<noteq> None)
      \<longrightarrow> pushed_clip (create_run arm) (b, p, 1) \<noteq> None) \<and>
   (pose_bones arm ''UpperLeg_L'' \<noteq> None \<longrightarrow>
      pushed_clip (create_walk arm) (''UpperLeg_L'', Rotation_euler, 1)
        = Some (Vector (rad (- 25)) (rad 0) (rad 0)) \<and>
      pushed_clip (create_walk arm) (''UpperLeg_L'', Rotation_euler, 30)
        = Some (Vector (rad (- 25)) (rad 0) (rad 0)))"
proof -
  let ?B = "dom (pose_bones arm)"
  note i = clip_closed [OF idle_first_last idle_channels, of ?B b p]
  note w = clip_closed [OF walk_first_last walk_channels, of ?B b p]
  note r = clip_closed [OF run_first_last run_channels, of ?B b p]
  have u: "pose_bones arm ''UpperLeg_L'' \<noteq> None \<longrightarrow>
      keyed_by ?B walk_calls (''UpperLeg_L'', Rotation_euler, 1)
        = Some (Vector (rad (- 25)) (rad 0) (rad 0)) \<and>
      keyed_by ?B walk_calls (''UpperLeg_L'', Rotation_euler, 30)
        = Some (Vector (rad (- 25)) (rad 0) (rad 0))"
    using walk_upper_leg
    by (simp add: keyed_by_lookup walk_first_last [symmetric] dom_def)
  show ?thesis
    unfolding pushed_clip_create_idle pushed_clip_create_walk pushed_clip_create_run
    using i w r u by blast
qed

theorem looping_clips_close_witness:
  "pose_bones humanoid_rig ''UpperLeg_L'' \<noteq> None \<and>
   pushed_clip (create_walk humanoid_rig) (''UpperLeg_L'', Rotation_euler, 1)
     = Some (Vector (rad (- 25)) (rad 0) (rad 0)) \<and>
   pushed_clip (create_walk humanoid_rig) (''UpperLeg_L'', Rotation_euler, 30)
     = Some (Vector (rad (- 25)) (rad 0) (rad 0)) \<and>
   (\<exists>f. pushed_clip (create_walk humanoid_rig) (''UpperLeg_L'', Rotation_euler, f) \<noteq> None)"
proof -
  have h: "pose_bones humanoid_rig ''UpperLeg_L'' \<noteq> None"
    by (simp add: humanoid_rig_def humanoid_bone_names_def)
  from looping_clips_close [of humanoid_rig "''UpperLeg_L''" Rotation_euler] h
  have k: "pushed_clip (create_walk humanoid_rig) (''UpperLeg_L'', Rotation_euler, 1)
        = Some (Vector (rad (- 25)) (rad 0) (rad 0)) \<and>
      pushed_clip (create_walk humanoid_rig) (''UpperLeg_L'', Rotation_euler, 30)
        = Some (Vector (rad (- 25)) (rad 0) (rad 0))"
    by blast
  then have "\<exists>f. pushed_clip (create_walk humanoid_rig) (''UpperLeg_L'', Rotation_euler, f)
                 \<noteq> None"
    by (intro exI [of _ 1]) simp
  with h k show ?thesis by blast
qed

subsection \<open>The mirror transformation\<close>

lemma rad_0: "rad 0 = 0"
  by (simp add: rad_def)

lemma rad_minus: "rad (- x) = - rad x"
  by (simp add: rad_def)

lemma mirror_bone_involution: "mirror_bone (mirror_bone b) = b"
proof -
  let ?r = "rev b"
  have r: "take 2 ?r @ drop 2 ?r = ?r" by (rule append_take_drop_id)
  consider "take 2 ?r = ''L_''" | "take 2 ?r \<noteq> ''L_''" "take 2 ?r = ''R_''"
    | "take 2 ?r \<noteq> ''L_''" "take 2 ?r \<noteq> ''R_''" by blast
  then show ?thesis
  proof cases
    case 1
    with r have "?r = ''L_'' @ drop 2 ?r" by simp
    then have "b = rev (''L_'' @ drop 2 ?r)" by (metis rev_rev_ident)
    then have b: "b = rev (drop 2 ?r) @ ''_L''" by simp
    from 1 have "mirror_bone b = rev (drop 2 ?r) @ ''_R''"
      by (simp add: mirror_bone_def Let_def)
    then have "mirror_bone (mirror_bone b) = rev (drop 2 ?r) @ ''_L''"
      by (simp add: mirror_bone_def Let_def)
    with b show ?thesis by simp
  next
    case 2
    with r have "?r = ''R_'' @ drop 2 ?r" by simp
    then have "b = rev (''R_'' @ drop 2 ?r)" by (metis rev_rev_ident)
    then have b: "b = rev (drop 2 ?r) @ ''_R''" by simp
    from 2 have "mirror_bone b = rev (drop 2 ?r) @ ''_L''"
      by (simp add: mirror_bone_def Let_def)
    then have "mirror_bone (mirror_bone b) = rev (drop 2 ?r) @ ''_R''"
      by (simp add: mirror_bone_def Let_def)
    with b show ?thesis by simp
  next
    case 3
    then have "mirror_bone b = b" by (simp add: mirror_bone_def Let_def)
    then show ?thesis by simp
  qed
qed

lemma all_data_path: "(\<forall>p. P p) \<longleftrightarrow> P Rotation_euler \<and> P Location"
  by (metis data_path.exhaust)

lemma gait_names_mirrored: "mirror_bone ` set gait_bone_names \<subseteq> set gait_bone_names"
  by (simp add: gait_bone_names_def mirror_bone_def)

lemma mirror_lookup:
  assumes xs: "fst ` fst ` set xs \<subseteq> set L" and ys: "fst ` fst ` set ys \<subseteq> set L"
    and closedL: "mirror_bone ` set L \<subseteq> set L"
    and on: "\<forall>b\<in>set L. \<forall>p. map_of ys (mirror_bone b, p)
                = map_option (mirror_value b p) (map_of xs (b, p))"
  shows "map_of ys (mirror_bone b, p) = map_option (mirror_value b p) (map_of xs (b, p))"
proof (cases "b \<in> set L")
  case True
  with on show ?thesis by blast
next
  case False
  have "mirror_bone b \<notin> set L"
  proof
    assume "mirror_bone b \<in> set L"
    with closedL have "mirror_bone (mirror_bone b) \<in> set L" by blast
    with False show False by (simp add: mirror_bone_involution)
  qed
  with ys have "(mirror_bone b, p) \<notin> fst ` set ys" by force
  then have y: "map_of ys (mirror_bone b, p) = None" by (simp add: map_of_eq_None_iff)
  from False xs have "(b, p) \<notin> fst ` set xs" by force
  then have "map_of xs (b, p) = None" by (simp add: map_of_eq_None_iff)
  with y show ?thesis by simp
qed

lemma walk_contact_mirror_on:
  "\<forall>b\<in>set gait_bone_names. \<forall>p.
     map_of (rev (pose_at 15 walk_calls)) (mirror_bone b, p)
       = map_option (mirror_value b p) (map_of (rev (pose_at 1 walk_calls)) (b, p))"
  by (simp add: gait_bone_names_def all_data_path pose_at_def clip_defs mirror_bone_def
      rad_0 rad_minus)

lemma walk_passing_mirror_on:
  "\<forall>b\<in>set gait_bone_names. \<forall>p.
     map_of (rev (pose_at 23 walk_calls)) (mirror_bone b, p)
       = map_option (mirror_value b p) (map_of (rev (pose_at 8 walk_calls)) (b, p))"
  by (simp add: gait_bone_names_def all_data_path pose_at_def clip_defs mirror_bone_def
      rad_0 rad_minus)

lemma run_contact_mirror_on:
  "\<forall>b\<in>set gait_bone_names. \<forall>p.
     map_of (rev (pose_at 10 run_calls_of_run)) (mirror_bone b, p)
       = map_option (mirror_value b p) (map_of (rev (pose_at 1 run_calls_of_run)) (b, p))"
  by (simp add: gait_bone_names_def all_data_path pose_at_def clip_defs mirror_bone_def
      rad_0 rad_minus)

lemma run_passing_mirror_on:
  "\<forall>b\<in>set gait_bone_names. \<forall>p.
     map_of (rev (pose_at 15 run_calls_of_run)) (mirror_bone b, p)
       = map_option (mirror_value b p) (map_of (rev (pose_at 5 run_calls_of_run)) (b, p))"
  by (simp add: gait_bone_names_def all_data_path pose_at_def clip_defs mirror_bone_def
      rad_0 rad_minus)

lemma walk_pose_names:
  "fst ` fst ` set (rev (pose_at f walk_calls)) \<subseteq> set gait_bone_names"
  by (auto simp: pose_at_def clip_defs gait_bone_names_def)

lemma run_pose_names:
  "fst ` fst ` set (rev (pose_at f run_calls_of_run)) \<subseteq> set gait_bone_names"
  by (auto simp: pose_at_def clip_defs gait_bone_names_def)

lemma keyed_by_mirror:
  assumes sym: "\<forall>n. (mirror_bone n \<in> B) = (n \<in> B)"
    and m: "\<And>b p. map_of (rev (pose_at f2 cs)) (mirror_bone b, p)
              = map_option (mirror_value b p) (map_of (rev (pose_at f1 cs)) (b, p))"
  shows "keyed_by B cs (mirror_bone b, p, f2)
           = map_option (mirror_value b p) (keyed_by B cs (b, p, f1))"
  using sym by (simp add: keyed_by_lookup m)

text \<open>
  Claim C4. On an armature that is left/right symmetric (a bone exists exactly when its
  mirror bone exists), in Walk and in Run the right-contact keypose (Walk frame 15, Run
  frame 10) is the mirror of the left-contact keypose (frame 1), and the right-passing
  keypose (Walk frame 23, Run frame 15) is the mirror of the left-passing keypose (Walk
  frame 8, Run frame 5): the value keyed for the mirror bone is the mirrored value of the
  bone, where mirroring swaps \<open>_L\<close> with \<open>_R\<close> and changes the sign of the lateral
  rotation components of Spine and Chest.
\<close>

theorem gait_keyposes_mirror:
  assumes sym: "\<forall>n. (pose_bones arm (mirror_bone n) = None) = (pose_bones arm n = None)"
  shows "pushed_clip (create_walk arm) (mirror_bone b, p, 15)
           = map_option (mirror_value b p) (pushed_clip (create_walk arm) (b, p, 1)) \<and>
         pushed_clip (create_walk arm) (mirror_bone b, p, 23)
           = map_option (mirror_value b p) (pushed_clip (create_walk arm) (b, p, 8)) \<and>
         pushed_clip (create_run arm) (mirror_bone b, p, 10)
           = map_option (mirror_value b p) (pushed_clip (create_run arm) (b, p, 1)) \<and>
         pushed_clip (create_run arm) (mirror_bone b, p, 15)
           = map_option (mirror_value b p) (pushed_clip (create_run arm) (b, p, 5))"
proof -
  from sym have s: "\<forall>n. (mirror_bone n \<in> dom (pose_bones arm)) = (n \<in> dom (pose_bones arm))"
    by (simp add: domIff)
  note wc = mirror_lookup [OF walk_pose_names walk_pose_names gait_names_mirrored
      walk_contact_mirror_on]
  note wp = mirror_lookup [OF walk_pose_names walk_pose_names gait_names_mirrored
      walk_passing_mirror_on]
  note rc = mirror_lookup [OF run_pose_names run_pose_names gait_names_mirrored
      run_contact_mirror_on]
  note rp = mirror_lookup [OF run_pose_names run_pose_names gait_names_mirrored
      run_passing_mirror_on]
  show ?thesis
    unfolding pushed_clip_create_walk pushed_clip_create_run
    using keyed_by_mirror [OF s wc] keyed_by_mirror [OF s wp]
      keyed_by_mirror [OF s rc] keyed_by_mirror [OF s rp]
    by blast
qed

lemma humanoid_names_mirrored:
  "mirror_bone ` set humanoid_bone_names \<subseteq> set humanoid_bone_names"
  by (simp add: humanoid_bone_names_def mirror_bone_def)

lemma humanoid_symmetric:
  "(pose_bones humanoid_rig (mirror_bone n) = None) = (pose_bones humanoid_rig n = None)"
proof -
  have "mirror_bone n \<in> set humanoid_bone_names \<longleftrightarrow> n \<in> set humanoid_bone_names"
  proof
    assume "mirror_bone n \<in> set humanoid_bone_names"
    with humanoid_names_mirrored have "mirror_bone (mirror_bone n) \<in> set humanoid_bone_names"
      by blast
    then show "n \<in> set humanoid_bone_names" by (simp add: mirror_bone_involution)
  next
    assume "n \<in> set humanoid_bone_names"
    with humanoid_names_mirrored show "mirror_bone n \<in> set humanoid_bone_names" by blast
  qed
  then show ?thesis by (simp add: humanoid_rig_def)
qed

lemma humanoid_walk_upper_leg:
  "pushed_clip (create_walk humanoid_rig) (''UpperLeg_L'', Rotation_euler, 1)
     = Some (Vector (rad (- 25)) (rad 0) (rad 0))"
  using walk_upper_leg
  by (simp add: pushed_clip_create_walk keyed_by_lookup humanoid_rig_def
      humanoid_bone_names_def dom_def)

theorem gait_keyposes_mirror_witness:
  "(\<forall>n. (pose_bones humanoid_rig (mirror_bone n) = None) = (pose_bones humanoid_rig n = None)) \<and>
   pushed_clip (create_walk humanoid_rig) (''UpperLeg_L'', Rotation_euler, 1)
     = Some (Vector (rad (- 25)) (rad 0) (rad 0)) \<and>
   pushed_clip (create_walk humanoid_rig) (''UpperLeg_R'', Rotation_euler, 15)
     = Some (Vector (rad (- 25)) (rad 0) (rad 0))"
proof -
  have h: "\<forall>n. (pose_bones humanoid_rig (mirror_bone n) = None)
                = (pose_bones humanoid_rig n = None)"
    using humanoid_symmetric by blast
  have m: "mirror_bone ''UpperLeg_L'' = ''UpperLeg_R''"
    by (simp add: mirror_bone_def)
  from gait_keyposes_mirror [OF h, of "''UpperLeg_L''" Rotation_euler]
  have "pushed_clip (create_walk humanoid_rig) (''UpperLeg_R'', Rotation_euler, 15)
          = map_option (mirror_value ''UpperLeg_L'' Rotation_euler)
              (pushed_clip (create_walk humanoid_rig) (''UpperLeg_L'', Rotation_euler, 1))"
    by (simp add: m)
  then have "pushed_clip (create_walk humanoid_rig) (''UpperLeg_R'', Rotation_euler, 15)
          = Some (Vector (rad (- 25)) (rad 0) (rad 0))"
    by (simp add: humanoid_walk_upper_leg)
  with h humanoid_walk_upper_leg show ?thesis by blast
qed

subsection \<open>cottage_color\<close>

text \<open>
  Claim C7. For every position with \<open>z > 1.85\<close> that also satisfies the wall predicate
  (\<open>0.30 < z < 1.90\<close>), \<open>cottage_color\<close> returns the roof color (0.32, 0.22, 0.12, 1.0),
  which is not the wall color of that position.
\<close>

theorem cottage_roof_before_wall:
  assumes "vz pos > 1.85" and "vz pos > 0.30" and "vz pos < 1.90"
  shows "cottage_color offset_x pos = (0.32, 0.22, 0.12, 1.0) \<and>
         cottage_color offset_x pos
           \<noteq> (0.55 + sin (vz pos * 15) * 0.02, 0.38 + sin (vz pos * 15) * 0.02, 0.20, 1.0)"
  using assms by (simp add: cottage_color_def Let_def)

theorem cottage_roof_before_wall_witness:
  "vz (Vector 0 0 1.87) > 1.85 \<and> vz (Vector 0 0 1.87) > 0.30 \<and> vz (Vector 0 0 1.87) < 1.90 \<and>
   cottage_color 0 (Vector 0 0 1.87) = (0.32, 0.22, 0.12, 1.0)"
proof -
  have h1: "vz (Vector 0 0 1.87) > 1.85" and h2: "vz (Vector 0 0 1.87) > 0.30"
    and h3: "vz (Vector 0 0 1.87) < 1.90" by simp_all
  from cottage_roof_before_wall [OF h1 h2 h3, of 0] h1 h2 h3 show ?thesis by blast
qed

subsection \<open>set_origin_bottom\<close>

lemma py_min_Min: "xs \<noteq> [] \<Longrightarrow> py_min xs = Inr (Min (set xs))"
proof (cases xs)
  case (Cons a list)
  then show ?thesis by (simp only: py_min.simps Min.set_eq_fold)
qed simp

lemma py_max_Max: "xs \<noteq> [] \<Longrightarrow> py_max xs = Inr (Max (set xs))"
proof (cases xs)
  case (Cons a list)
  then show ?thesis by (simp only: py_max.simps Max.set_eq_fold)
qed simp

lemma Min_shift:
  fixes xs :: "real list"
  assumes "xs \<noteq> []"
  shows "Min (set (map (\<lambda>x. x - c) xs)) = Min (set xs) - c"
proof -
  have "mono (\<lambda>x::real. x - c)" by (simp add: mono_def)
  from mono_Min_commute [OF this, of "set xs"] assms show ?thesis by simp
qed

lemma Max_shift:
  fixes xs :: "real list"
  assumes "xs \<noteq> []"
  shows "Max (set (map (\<lambda>x. x - c) xs)) = Max (set xs) - c"
proof -
  have "mono (\<lambda>x::real. x - c)" by (simp add: mono_def)
  from mono_Max_commute [OF this, of "set xs"] assms show ?thesis by simp
qed

lemma set_origin_bottom_result:
  assumes "vertices (data obj) \<noteq> []"
  shows "set_origin_bottom obj z_offset =
     Inr (obj\<lparr>data := (data obj)\<lparr>vertices :=
              map (\<lambda>v. v\<lparr>co := Vector
                     (vx (co v) - (Min (set (map (\<lambda>v. vx (co v)) (vertices (data obj))))
                                   + Max (set (map (\<lambda>v. vx (co v)) (vertices (data obj))))) * 0.5)
                     (vy (co v) - (Min (set (map (\<lambda>v. vy (co v)) (vertices (data obj))))
                                   + Max (set (map (\<lambda>v. vy (co v)) (vertices (data obj))))) * 0.5)
                     (vz (co v) - (Min (set (map (\<lambda>v. vz (co v)) (vertices (data obj))))
                                   + z_offset))\<rparr>)
                (vertices (data obj))\<rparr>,
            location := Vector 0 0 0\<rparr>)"
  using assms by (simp add: set_origin_bottom_def Let_def py_min_Min py_max_Max)

text \<open>
  Claim C8, as amended. For every mesh with at least one vertex and every \<open>z_offset\<close>,
  \<open>set_origin_bottom\<close> succeeds, and afterwards the midpoint of the minimum and maximum
  vertex X coordinates is 0, the midpoint of the minimum and maximum vertex Y
  coordinates is 0, and the lowest vertex Z coordinate is \<open>- z_offset\<close> (that is 0 for
  the default \<open>z_offset = 0\<close>).
\<close>

theorem set_origin_bottom_centered:
  assumes "vertices (data obj) \<noteq> []"
  shows "\<exists>obj'. set_origin_bottom obj z_offset = Inr obj' \<and>
     (Min (set (map (\<lambda>v. vx (co v)) (vertices (data obj'))))
        + Max (set (map (\<lambda>v. vx (co v)) (vertices (data obj'))))) * 0.5 = 0 \<and>
     (Min (set (map (\<lambda>v. vy (co v)) (vertices (data obj'))))
        + Max (set (map (\<lambda>v. vy (co v)) (vertices (data obj'))))) * 0.5 = 0 \<and>
     Min (set (map (\<lambda>v. vz (co v)) (vertices (data obj')))) = - z_offset \<and>
     (z_offset = 0 \<longrightarrow> Min (set (map (\<lambda>v. vz (co v)) (vertices (data obj')))) = 0)"
proof -
  let ?vs = "vertices (data obj)"
  let ?xs = "map (\<lambda>v. vx (co v)) ?vs"
  let ?ys = "map (\<lambda>v. vy (co v)) ?vs"
  let ?zs = "map (\<lambda>v. vz (co v)) ?vs"
  let ?cx = "(Min (set ?xs) + Max (set ?xs)) * 0.5"
  let ?cy = "(Min (set ?ys) + Max (set ?ys)) * 0.5"
  let ?mz = "Min (set ?zs) + z_offset"
  define moved where "moved = map (\<lambda>v. v\<lparr>co := Vector (vx (co v) - ?cx) (vy (co v) - ?cy)
                                    (vz (co v) - ?mz)\<rparr>) ?vs"
  define obj' where "obj' = obj\<lparr>data := (data obj)\<lparr>vertices := moved\<rparr>,
                               location := Vector 0 0 0\<rparr>"
  have ne: "?xs \<noteq> []" "?ys \<noteq> []" "?zs \<noteq> []" using assms by simp_all
  have res: "set_origin_bottom obj z_offset = Inr obj'"
    unfolding obj'_def moved_def by (rule set_origin_bottom_result [OF assms])
  have vs': "vertices (data obj') = moved" by (simp add: obj'_def)
  have xs': "map (\<lambda>v. vx (co v)) moved = map (\<lambda>x. x - ?cx) ?xs"
    by (simp add: moved_def comp_def)
  have ys': "map (\<lambda>v. vy (co v)) moved = map (\<lambda>y. y - ?cy) ?ys"
    by (simp add: moved_def comp_def)
  have zs': "map (\<lambda>v. vz (co v)) moved = map (\<lambda>z. z - ?mz) ?zs"
    by (simp add: moved_def comp_def)
  have x0: "(Min (set (map (\<lambda>v. vx (co v)) (vertices (data obj'))))
               + Max (set (map (\<lambda>v. vx (co v)) (vertices (data obj'))))) * 0.5 = 0"
    unfolding vs' xs' Min_shift [OF ne(1)] Max_shift [OF ne(1)] by (simp add: algebra_simps)
  have y0: "(Min (set (map (\<lambda>v. vy (co v)) (vertices (data obj'))))
               + Max (set (map (\<lambda>v. vy (co v)) (vertices (data obj'))))) * 0.5 = 0"
    unfolding vs' ys' Min_shift [OF ne(2)] Max_shift [OF ne(2)] by (simp add: algebra_simps)
  have z0: "Min (set (map (\<lambda>v. vz (co v)) (vertices (data obj')))) = - z_offset"
    unfolding vs' zs' Min_shift [OF ne(3)] by simp
  from z0 have z1: "z_offset = 0 \<longrightarrow>
      Min (set (map (\<lambda>v. vz (co v)) (vertices (data obj')))) = 0"
    by simp
  from res x0 y0 z0 z1 show ?thesis by blast
qed

theorem set_origin_bottom_centered_witness:
  "vertices (data two_vertex_obj) \<noteq> [] \<and>
   (\<exists>obj'. set_origin_bottom two_vertex_obj 0 = Inr obj' \<and>
      Min (set (map (\<lambda>v. vz (co v)) (vertices (data obj')))) = 0)"
proof -
  have h: "vertices (data two_vertex_obj) \<noteq> []" by (simp add: two_vertex_obj_def)
  from set_origin_bottom_centered [OF h, of 0] h show ?thesis by auto
qed

text \<open>
  With \<open>z_offset = 1/2\<close> the vertices with \<open>z = 2\<close> and \<open>z = 4\<close> move to
  \<open>z = -1/2\<close> and \<open>z = 3/2\<close>: the lowest vertex sits at \<open>-1/2\<close>, not at the offset.
\<close>

theorem set_origin_bottom_offset_counterexample:
  "set_origin_bottom two_vertex_obj (1 / 2) =
     Inr (two_vertex_obj
           \<lparr>data := \<lparr>vertices = [\<lparr>co = Vector (- 1) (- 1) (- 1 / 2), normal = Vector 0 0 1\<rparr>,
                                   \<lparr>co = Vector 1 1 (3 / 2), normal = Vector 0 0 1\<rparr>],
                       polygons = [], color_attributes = []\<rparr>,
            location := Vector 0 0 0\<rparr>) \<and>
   min (- 1 / 2) (3 / 2) \<noteq> (1 / 2 :: real)"
  by (simp add: set_origin_bottom_def two_vertex_obj_def Let_def)

subsection \<open>add_part\<close>




subsection \<open>set_vertex_colors_with_moss\<close>

lemma moss_blend_range:
  assumes "normal_z \<le> 1" and "normal_z > moss_threshold"
  shows "0 \<le> moss_blend normal_z moss_threshold \<and> moss_blend normal_z moss_threshold \<le> 1"
  using assms by (simp add: moss_blend_def)

lemma color_corners_result:
  assumes "normal_z > moss_threshold \<longrightarrow> moss_threshold \<noteq> 1"
  shows "color_corners normal_z base_color moss_color moss_threshold ls layer =
           Inr (\<lambda>i. if i \<in> set ls
                     then Some (corner_color normal_z base_color moss_color moss_threshold)
                     else layer i)"
  using assms
proof (induction ls arbitrary: layer)
  case Nil
  then show ?case by simp
next
  case (Cons l ls)
  show ?case
  proof (cases "normal_z > moss_threshold")
    case True
    with Cons.prems have "1 - moss_threshold \<noteq> 0" by simp
    with True Cons.IH [OF Cons.prems] show ?thesis
      by (auto simp: Let_def corner_color_def moss_blend_def fun_eq_iff)
  next
    case False
    with Cons.IH [OF Cons.prems] show ?thesis
      by (auto simp: corner_color_def fun_eq_iff)
  qed
qed

lemma color_polygons_result:
  assumes "\<forall>p\<in>set ps. vz (poly_normal p) \<le> 1"
    and "distinct (concat (map loop_indices ps))"
  shows "\<exists>colored. color_polygons base_color moss_color moss_threshold ps layer = Inr colored \<and>
           (\<forall>p\<in>set ps. \<forall>li\<in>set (loop_indices p).
              colored li = Some (corner_color (vz (poly_normal p)) base_color moss_color
                                   moss_threshold)) \<and>
           (\<forall>i. i \<notin> set (concat (map loop_indices ps)) \<longrightarrow> colored i = layer i)"
  using assms
proof (induction ps arbitrary: layer)
  case Nil
  then show ?case by simp
next
  case (Cons q ps)
  let ?cc = "\<lambda>p. corner_color (vz (poly_normal p)) base_color moss_color moss_threshold"
  let ?layer1 = "\<lambda>i. if i \<in> set (loop_indices q) then Some (?cc q) else layer i"
  from Cons.prems(1) have "vz (poly_normal q) \<le> 1" by simp
  then have "vz (poly_normal q) > moss_threshold \<longrightarrow> moss_threshold \<noteq> 1" by auto
  from color_corners_result [OF this]
  have first: "color_corners (vz (poly_normal q)) base_color moss_color moss_threshold
                 (loop_indices q) layer = Inr ?layer1" .
  from Cons.prems have rest1: "\<forall>p\<in>set ps. vz (poly_normal p) \<le> 1"
    and rest2: "distinct (concat (map loop_indices ps))"
    and disj: "set (loop_indices q) \<inter> set (concat (map loop_indices ps)) = {}"
    by auto
  from Cons.IH [OF rest1 rest2, of ?layer1] obtain colored where
    c: "color_polygons base_color moss_color moss_threshold ps ?layer1 = Inr colored"
    and inside: "\<forall>p\<in>set ps. \<forall>li\<in>set (loop_indices p). colored li = Some (?cc p)"
    and outside: "\<forall>i. i \<notin> set (concat (map loop_indices ps)) \<longrightarrow> colored i = ?layer1 i"
    by blast
  have r: "color_polygons base_color moss_color moss_threshold (q # ps) layer = Inr colored"
    by (simp add: first c)
  have q_in: "\<forall>li\<in>set (loop_indices q). colored li = Some (?cc q)"
  proof
    fix li assume li: "li \<in> set (loop_indices q)"
    with disj have "li \<notin> set (concat (map loop_indices ps))" by blast
    with outside have "colored li = ?layer1 li" by blast
    with li show "colored li = Some (?cc q)" by simp
  qed
  have out: "\<forall>i. i \<notin> set (concat (map loop_indices (q # ps))) \<longrightarrow> colored i = layer i"
    using outside by auto
  from r q_in inside out show ?case by auto
qed

lemma unit_normal_z:
  assumes "vlength n = 1"
  shows "vz n \<le> 1"
proof -
  obtain a b c where n: "n = Vector a b c" by (cases n) auto
  from assms have "a * a + b * b + c * c = 1"
    by (simp add: n vlength_def length_squared_def)
  moreover have "0 \<le> a * a" "0 \<le> b * b" by simp_all
  ultimately have "c * c \<le> 1" by linarith
  then have "c\<^sup>2 \<le> 1" by (simp add: power2_eq_square)
  then have "\<bar>c\<bar> \<le> 1" by (simp add: abs_square_le_1)
  then show ?thesis by (simp add: n)
qed

text \<open>
  Claim C5, as amended. Let every polygon of the mesh have a unit face normal (and every
  corner belong to one polygon). Then \<open>set_vertex_colors_with_moss\<close> succeeds, and
  for every polygon and each of its corners: if the normal's vertical component
  \<open>n.z\<close> is greater than the threshold \<open>T\<close>, the corner receives, in its red, green and
  blue channels, the linear blend of the base and moss colors with factor
  \<open>(n.z - T) / (1 - T)\<close>, and the alpha 1; that factor lies in [0,1], so clamping does
  not change it. Otherwise the corner receives the base color unmodified.
\<close>

theorem moss_blend_on_upward_faces:
  assumes unit: "\<forall>p\<in>set (polygons (data obj)). vlength (poly_normal p) = 1"
    and corners: "distinct (concat (map loop_indices (polygons (data obj))))"
  shows "\<exists>colored others.
     set_vertex_colors_with_moss obj (br, bg, bb, ba) (mr, mg, mb, ma) T
       = Inr (obj\<lparr>data := (data obj)\<lparr>color_attributes := colored # others\<rparr>\<rparr>) \<and>
     (\<forall>p\<in>set (polygons (data obj)). \<forall>li\<in>set (loop_indices p).
        (vz (poly_normal p) > T \<longrightarrow>
           colored li = Some
             (br * (1 - (vz (poly_normal p) - T) / (1 - T)) + mr * ((vz (poly_normal p) - T) / (1 - T)),
              bg * (1 - (vz (poly_normal p) - T) / (1 - T)) + mg * ((vz (poly_normal p) - T) / (1 - T)),
              bb * (1 - (vz (poly_normal p) - T) / (1 - T)) + mb * ((vz (poly_normal p) - T) / (1 - T)),
              1) \<and>
           0 \<le> (vz (poly_normal p) - T) / (1 - T) \<and> (vz (poly_normal p) - T) / (1 - T) \<le> 1 \<and>
           max 0 (min 1 ((vz (poly_normal p) - T) / (1 - T))) = (vz (poly_normal p) - T) / (1 - T)) \<and>
        (\<not> vz (poly_normal p) > T \<longrightarrow> colored li = Some (br, bg, bb, ba)))"
proof -
  let ?mesh = "data obj"
  let ?attrs = "if color_attributes ?mesh = [] then [Map.empty] else color_attributes ?mesh"
  obtain layer others where attrs: "?attrs = layer # others"
    by (cases "color_attributes ?mesh") auto
  from unit have le1: "\<forall>p\<in>set (polygons ?mesh). vz (poly_normal p) \<le> 1"
    using unit_normal_z by blast
  from color_polygons_result [OF le1 corners, of "(br, bg, bb, ba)" "(mr, mg, mb, ma)" T layer]
  obtain colored where
    c: "color_polygons (br, bg, bb, ba) (mr, mg, mb, ma) T (polygons ?mesh) layer = Inr colored"
    and inside: "\<forall>p\<in>set (polygons ?mesh). \<forall>li\<in>set (loop_indices p).
       colored li = Some (corner_color (vz (poly_normal p)) (br, bg, bb, ba) (mr, mg, mb, ma) T)"
    by blast
  have res: "set_vertex_colors_with_moss obj (br, bg, bb, ba) (mr, mg, mb, ma) T
       = Inr (obj\<lparr>data := ?mesh\<lparr>color_attributes := colored # others\<rparr>\<rparr>)"
    using attrs c by (simp add: set_vertex_colors_with_moss_def Let_def)
  have each: "\<forall>p\<in>set (polygons ?mesh). \<forall>li\<in>set (loop_indices p).
        (vz (poly_normal p) > T \<longrightarrow>
           colored li = Some
             (br * (1 - (vz (poly_normal p) - T) / (1 - T)) + mr * ((vz (poly_normal p) - T) / (1 - T)),
              bg * (1 - (vz (poly_normal p) - T) / (1 - T)) + mg * ((vz (poly_normal p) - T) / (1 - T)),
              bb * (1 - (vz (poly_normal p) - T) / (1 - T)) + mb * ((vz (poly_normal p) - T) / (1 - T)),
              1) \<and>
           0 \<le> (vz (poly_normal p) - T) / (1 - T) \<and> (vz (poly_normal p) - T) / (1 - T) \<le> 1 \<and>
           max 0 (min 1 ((vz (poly_normal p) - T) / (1 - T))) = (vz (poly_normal p) - T) / (1 - T)) \<and>
        (\<not> vz (poly_normal p) > T \<longrightarrow> colored li = Some (br, bg, bb, ba))"
  proof (intro ballI)
    fix p li assume p: "p \<in> set (polygons ?mesh)" and li: "li \<in> set (loop_indices p)"
    from inside p li have col: "colored li
        = Some (corner_color (vz (poly_normal p)) (br, bg, bb, ba) (mr, mg, mb, ma) T)"
      by blast
    from le1 p have z: "vz (poly_normal p) \<le> 1" by blast
    show "(vz (poly_normal p) > T \<longrightarrow>
           colored li = Some
             (br * (1 - (vz (poly_normal p) - T) / (1 - T)) + mr * ((vz (poly_normal p) - T) / (1 - T)),
              bg * (1 - (vz (poly_normal p) - T) / (1 - T)) + mg * ((vz (poly_normal p) - T) / (1 - T)),
              bb * (1 - (vz (poly_normal p) - T) / (1 - T)) + mb * ((vz (poly_normal p) - T) / (1 - T)),
              1) \<and>
           0 \<le> (vz (poly_normal p) - T) / (1 - T) \<and> (vz (poly_normal p) - T) / (1 - T) \<le> 1 \<and>
           max 0 (min 1 ((vz (poly_normal p) - T) / (1 - T))) = (vz (poly_normal p) - T) / (1 - T)) \<and>
        (\<not> vz (poly_normal p) > T \<longrightarrow> colored li = Some (br, bg, bb, ba))"
    proof (cases "vz (poly_normal p) > T")
      case True
      from moss_blend_range [OF z True]
      have rng: "0 \<le> (vz (poly_normal p) - T) / (1 - T) \<and> (vz (poly_normal p) - T) / (1 - T) \<le> 1"
        by (simp add: moss_blend_def)
      have "max 0 (min 1 ((vz (poly_normal p) - T) / (1 - T)))
                   = (vz (poly_normal p) - T) / (1 - T)"
      proof -
        define f where "f = (vz (poly_normal p) - T) / (1 - T)"
        from rng have "0 \<le> f" "f \<le> 1" by (simp_all add: f_def)
        then have "max 0 (min 1 f) = f" by (simp add: min_absorb2 max_absorb2)
        then show ?thesis by (simp only: f_def)
      qed
      with True col rng show ?thesis
        by (simp add: corner_color_def moss_blend_def Let_def)
    next
      case False
      with col show ?thesis by (simp add: corner_color_def)
    qed
  qed
  from res each show ?thesis by blast
qed

theorem moss_blend_on_upward_faces_witness:
  "list_all (\<lambda>p. vlength (poly_normal p) = 1) (polygons (data two_face_rock)) \<and>
   distinct (concat (map loop_indices (polygons (data two_face_rock)))) \<and>
   (\<exists>colored others.
      set_vertex_colors_with_moss two_face_rock (0.48, 0.44, 0.38, 1) (0.30, 0.40, 0.22, 1) 0.6
        = Inr (two_face_rock\<lparr>data := (data two_face_rock)
                 \<lparr>color_attributes := colored # others\<rparr>\<rparr>) \<and>
      colored 0 = Some (0.30, 0.40, 0.22, 1) \<and>
      colored 3 = Some (0.48, 0.44, 0.38, 1))"
proof -
  have h1: "\<forall>p\<in>set (polygons (data two_face_rock)). vlength (poly_normal p) = 1"
    by (simp add: two_face_rock_def vlength_def length_squared_def)
  have h2: "distinct (concat (map loop_indices (polygons (data two_face_rock))))"
    by (simp add: two_face_rock_def)
  from moss_blend_on_upward_faces [OF h1 h2, of "0.48" "0.44" "0.38" 1 "0.30" "0.40" "0.22" 1 "0.6"]
  obtain colored others where
    r: "set_vertex_colors_with_moss two_face_rock (0.48, 0.44, 0.38, 1) (0.30, 0.40, 0.22, 1) 0.6
        = Inr (two_face_rock\<lparr>data := (data two_face_rock)
                 \<lparr>color_attributes := colored # others\<rparr>\<rparr>)"
    and e: "\<forall>p\<in>set (polygons (data two_face_rock)). \<forall>li\<in>set (loop_indices p).
        (vz (poly_normal p) > 0.6 \<longrightarrow>
           colored li = Some
             (0.48 * (1 - (vz (poly_normal p) - 0.6) / (1 - 0.6))
                + 0.30 * ((vz (poly_normal p) - 0.6) / (1 - 0.6)),
              0.44 * (1 - (vz (poly_normal p) - 0.6) / (1 - 0.6))
                + 0.40 * ((vz (poly_normal p) - 0.6) / (1 - 0.6)),
              0.38 * (1 - (vz (poly_normal p) - 0.6) / (1 - 0.6))
                + 0.22 * ((vz (poly_normal p) - 0.6) / (1 - 0.6)),
              1) \<and>
           0 \<le> (vz (poly_normal p) - 0.6) / (1 - 0.6) \<and>
           (vz (poly_normal p) - 0.6) / (1 - 0.6) \<le> 1 \<and>
           max 0 (min 1 ((vz (poly_normal p) - 0.6) / (1 - 0.6)))
             = (vz (poly_normal p) - 0.6) / (1 - 0.6)) \<and>
        (\<not> vz (poly_normal p) > 0.6 \<longrightarrow> colored li = Some (0.48, 0.44, 0.38, 1))"
    by blast
  from e have c0: "colored 0 = Some (0.30, 0.40, 0.22, 1)"
    by (simp add: two_face_rock_def)
  from e have c3: "colored 3 = Some (0.48, 0.44, 0.38, 1)"
    by (simp add: two_face_rock_def)
  from h1 have "list_all (\<lambda>p. vlength (poly_normal p) = 1) (polygons (data two_face_rock))"
    by (simp add: list_all_iff)
  with h2 r c0 c3 show ?thesis by blast
qed

text \<open>
  With a base color and a moss color of alpha 1/2, the corner of the upward face (blend
  factor 1) receives alpha 1, while the linear blend of the two alphas is 1/2.
\<close>

theorem moss_blend_alpha_counterexample:
  "written_color
     (set_vertex_colors_with_moss two_face_rock (0.48, 0.44, 0.38, 0.5) (0.30, 0.40, 0.22, 0.5) 0.6)
     0 = Some (0.30, 0.40, 0.22, 1) \<and>
   0.5 * (1 - (1 - 0.6) / (1 - 0.6)) + 0.5 * ((1 - 0.6) / (1 - 0.6)) \<noteq> (1 :: real)"
  by (simp add: written_color_def set_vertex_colors_with_moss_def two_face_rock_def Let_def)

subsection \<open>displace_vertices\<close>








end
